theory Spec2Isabelle
  imports Complex_Main
begin

section \<open>Values and driver objects\<close>

text \<open>
  The model follows the full (heartbeat) variant of \<^verbatim>\<open>index.js\<close>: the module-level
  variables \<^verbatim>\<open>connectionPool\<close>, \<^verbatim>\<open>lastActivityTime\<close>, \<^verbatim>\<open>connectionConfig\<close>,
  \<^verbatim>\<open>autoDisconnectTimer\<close>, \<^verbatim>\<open>heartbeatTimer\<close> and \<^verbatim>\<open>connectionStats\<close> form the
  session state, and every function takes the state and returns the new one.
  \<^verbatim>\<open>null\<close> and \<^verbatim>\<open>undefined\<close> are \<open>None\<close>. Numbers that come from the tool
  schema (\<^verbatim>\<open>z.number()\<close>) are rationals; clock readings (\<^verbatim>\<open>Date.now()\<close>) are
  integers in milliseconds; the statistics counters are naturals (the doubles of the
  source count exactly far beyond any value a process reaches).
\<close>

datatype js_value = JUndefined | JNull | JBool bool | JNum rat | JStr string

fun truthy :: "js_value \<Rightarrow> bool" where
  "truthy JUndefined = False"
| "truthy JNull = False"
| "truthy (JBool b) = b"
| "truthy (JNum n) = (n \<noteq> 0)"
| "truthy (JStr s) = (s \<noteq> [])"

text \<open>\<^verbatim>\<open>x || d\<close> on an optional number: \<^verbatim>\<open>undefined\<close> and \<^verbatim>\<open>0\<close> are falsy.\<close>

definition num_or :: "rat option \<Rightarrow> rat \<Rightarrow> rat" where
  "num_or x d = (case x of None \<Rightarrow> d | Some v \<Rightarrow> if v = 0 then d else v)"

text \<open>
  An error thrown by the code. \<open>NotConnectedError\<close> is the \<^verbatim>\<open>Error\<close> built at
  lines 227 and 444 (its message is the fixed hint to call \<^verbatim>\<open>connect_database\<close> first);
  \<open>DriverError\<close> is a rejection that comes from the \<^verbatim>\<open>mssql\<close> driver, with its
  message; \<open>ReferenceError\<close> and \<open>TypeError\<close> are the engine's errors for an unbound
  identifier and for a property read on \<^verbatim>\<open>null\<close>.
\<close>

datatype error = NotConnectedError | DriverError string | ReferenceError string | TypeError string

record config =
  server :: string
  database :: string
  user :: string
  password :: string
  port :: "rat option"
  encrypt :: "bool option"
  trustServerCertificate :: "bool option"
  requestTimeout :: "rat option"
  connectionTimeout :: "rat option"
  maxPoolSize :: "rat option"
  minPoolSize :: "rat option"
  idleTimeout :: "rat option"

record conn_options =
  opt_encrypt :: bool
  opt_trustServerCertificate :: bool
  enableArithAbort :: bool
  opt_requestTimeout :: rat
  opt_connectionTimeout :: rat

record pool_options =
  pool_max :: rat
  pool_min :: rat
  idleTimeoutMillis :: rat
  acquireTimeoutMillis :: rat
  createTimeoutMillis :: rat

record sql_config =
  sql_server :: string
  sql_database :: string
  sql_user :: string
  sql_password :: string
  sql_port :: rat
  sql_options :: conn_options
  sql_pool :: pool_options

text \<open>
  A \<^verbatim>\<open>sql.ConnectionPool\<close> object, as far as the code reads it: the configuration it
  was built from and the driver's \<^verbatim>\<open>connected\<close> and \<^verbatim>\<open>connecting\<close> flags.
\<close>

record connection_pool =
  pool_config :: sql_config
  connected :: bool
  connecting :: bool

record sql_param =
  param_name :: string
  param_type :: js_value
  param_value :: js_value

type_synonym row = "(string \<times> js_value) list"

record driver_result =
  rowsAffected :: "nat list"
  recordset :: "row list option"

record query_result =
  success :: bool
  res_rowsAffected :: "nat list"
  res_recordset :: "row list"
  queryTime :: int
  rowCount :: nat

record connection_stats =
  totalConnections :: nat
  successfulConnections :: nat
  failedConnections :: nat
  totalQueries :: nat
  successfulQueries :: nat
  failedQueries :: nat
  lastConnectionTime :: "int option"
  lastQueryTime :: "int option"
  totalQueryTime :: int
  averageQueryTime :: rat

text \<open>
  A timer variable holds the handle that \<^verbatim>\<open>setTimeout\<close> / \<^verbatim>\<open>setInterval\<close>
  returned, or \<^verbatim>\<open>null\<close>; the handle is represented by the clock reading at which the
  timer was armed.
\<close>

record session =
  connectionPool :: "connection_pool option"
  lastActivityTime :: "int option"
  connectionConfig :: "config option"
  autoDisconnectTimer :: "int option"
  heartbeatTimer :: "int option"
  connectionStats :: connection_stats

definition initial_stats :: connection_stats where
  "initial_stats = \<lparr> totalConnections = 0, successfulConnections = 0, failedConnections = 0,
     totalQueries = 0, successfulQueries = 0, failedQueries = 0,
     lastConnectionTime = None, lastQueryTime = None,
     totalQueryTime = 0, averageQueryTime = 0 \<rparr>"

definition initial_session :: session where
  "initial_session = \<lparr> connectionPool = None, lastActivityTime = None,
     connectionConfig = None, autoDisconnectTimer = None, heartbeatTimer = None,
     connectionStats = initial_stats \<rparr>"

text \<open>
  What the world outside the process does during one call: whether
  \<^verbatim>\<open>pool.close()\<close> and \<^verbatim>\<open>pool.connect()\<close> reject (and with which message), what
  \<^verbatim>\<open>request.query\<close> answers for a statement and its bound inputs, and the clock
  readings taken when the pool has opened (\<open>t_connected\<close>), when the query starts
  (\<open>t_start\<close>, line 230) and when it has settled (\<open>t_end\<close>).
\<close>

record env =
  close_error :: "string option"
  open_error :: "string option"
  t_connected :: int
  t_start :: int
  run_query :: "string \<Rightarrow> sql_param list \<Rightarrow> string + driver_result"
  t_end :: int

section \<open>Timers and activity (lines 68-122)\<close>

definition startHeartbeat :: "int \<Rightarrow> session \<Rightarrow> session" where
  "startHeartbeat now s = s\<lparr> heartbeatTimer := Some now \<rparr>"

definition stopHeartbeat :: "session \<Rightarrow> session" where
  "stopHeartbeat s = (case heartbeatTimer s of None \<Rightarrow> s
     | Some h \<Rightarrow> s\<lparr> heartbeatTimer := None \<rparr>)"

definition startAutoDisconnectTimer :: "int \<Rightarrow> session \<Rightarrow> session" where
  "startAutoDisconnectTimer now s = s\<lparr> autoDisconnectTimer := Some now \<rparr>"

definition updateActivityTime :: "int \<Rightarrow> session \<Rightarrow> session" where
  "updateActivityTime now s = startAutoDisconnectTimer now (s\<lparr> lastActivityTime := Some now \<rparr>)"

section \<open>Connection manager (lines 125-221)\<close>

text \<open>The object literal \<^verbatim>\<open>sqlConfig\<close> of lines 133-153.\<close>

definition sqlConfig :: "config \<Rightarrow> sql_config" where
  "sqlConfig cfg = \<lparr>
     sql_server = server cfg,
     sql_database = database cfg,
     sql_user = user cfg,
     sql_password = password cfg,
     sql_port = num_or (port cfg) 1433,
     sql_options = \<lparr>
       opt_encrypt = (encrypt cfg \<noteq> Some False),
       opt_trustServerCertificate = (trustServerCertificate cfg = Some True),
       enableArithAbort = True,
       opt_requestTimeout = num_or (requestTimeout cfg) 30000,
       opt_connectionTimeout = num_or (connectionTimeout cfg) 30000 \<rparr>,
     sql_pool = \<lparr>
       pool_max = num_or (maxPoolSize cfg) 10,
       pool_min = num_or (minPoolSize cfg) 1,
       idleTimeoutMillis = num_or (idleTimeout cfg) 600000,
       acquireTimeoutMillis = 60000,
       createTimeoutMillis = 30000 \<rparr> \<rparr>"

text \<open>\<^verbatim>\<open>new sql.ConnectionPool(sqlConfig)\<close>: a pool that is not yet connected.\<close>

definition new_ConnectionPool :: "sql_config \<Rightarrow> connection_pool" where
  "new_ConnectionPool c = \<lparr> pool_config = c, connected = False, connecting = False \<rparr>"

text \<open>
  \<^verbatim>\<open>disconnectDatabase\<close> (lines 178-201). With a pool in the variable it awaits
  \<^verbatim>\<open>close()\<close>; a rejection is re-thrown by the \<^verbatim>\<open>catch\<close> with nothing reset. Otherwise
  it clears pool, configuration, activity time and both timers and returns \<^verbatim>\<open>true\<close>.
  With no pool it returns \<^verbatim>\<open>false\<close>.
\<close>

definition disconnectDatabase :: "env \<Rightarrow> session \<Rightarrow> (error + bool) \<times> session" where
  "disconnectDatabase e s =
     (case connectionPool s of
        None \<Rightarrow> (Inr False, s)
      | Some p \<Rightarrow>
          (case close_error e of
             Some msg \<Rightarrow> (Inl (DriverError msg), s)
           | None \<Rightarrow>
               (Inr True,
                stopHeartbeat (s\<lparr> connectionPool := None, connectionConfig := None,
                                  lastActivityTime := None, autoDisconnectTimer := None \<rparr>))))"

text \<open>The \<^verbatim>\<open>catch\<close> block of \<^verbatim>\<open>connectDatabase\<close> (lines 169-174), before the re-throw.\<close>

definition connect_failed :: "session \<Rightarrow> session" where
  "connect_failed s = s\<lparr> connectionStats := (connectionStats s)\<lparr>
       totalConnections := totalConnections (connectionStats s) + 1,
       failedConnections := failedConnections (connectionStats s) + 1 \<rparr> \<rparr>"

text \<open>Lines 159-165: what follows a \<^verbatim>\<open>connect()\<close> that resolved.\<close>

definition connect_succeeded :: "int \<Rightarrow> config \<Rightarrow> session \<Rightarrow> session" where
  "connect_succeeded now cfg s =
     startHeartbeat now (updateActivityTime now
       (s\<lparr> connectionConfig := Some cfg,
           connectionStats := (connectionStats s)\<lparr>
             totalConnections := totalConnections (connectionStats s) + 1,
             successfulConnections := successfulConnections (connectionStats s) + 1,
             lastConnectionTime := Some now \<rparr> \<rparr>))"

text \<open>
  \<^verbatim>\<open>connectDatabase\<close> (lines 125-175). The pool object is stored in
  \<^verbatim>\<open>connectionPool\<close> at line 156, before \<^verbatim>\<open>connect()\<close> is awaited; when the open
  is rejected the \<^verbatim>\<open>catch\<close> counts the failure and re-throws, and the variable keeps
  the pool object, whose flags are then both false.
\<close>

definition connectDatabase :: "env \<Rightarrow> config \<Rightarrow> session \<Rightarrow> (error + bool) \<times> session" where
  "connectDatabase e cfg s =
     (case (case connectionPool s of None \<Rightarrow> (Inr False, s)
            | Some p \<Rightarrow> disconnectDatabase e s) of
        (Inl err, s1) \<Rightarrow> (Inl err, connect_failed s1)
      | (Inr b, s1) \<Rightarrow>
          (let p = new_ConnectionPool (sqlConfig cfg) in
           (case open_error e of
              Some msg \<Rightarrow>
                (Inl (DriverError msg), connect_failed (s1\<lparr> connectionPool := Some p \<rparr>))
            | None \<Rightarrow>
                (Inr True,
                 connect_succeeded (t_connected e) cfg
                   (s1\<lparr> connectionPool := Some (p\<lparr> connected := True \<rparr>) \<rparr>)))))"

definition isConnectionActive :: "session \<Rightarrow> bool" where
  "isConnectionActive s =
     (case connectionPool s of None \<Rightarrow> False
      | Some p \<Rightarrow> connected p \<and> \<not> connecting p)"

definition reconnectIfNeeded :: "env \<Rightarrow> session \<Rightarrow> bool \<times> session" where
  "reconnectIfNeeded e s =
     (case (if isConnectionActive s then None else connectionConfig s) of
        Some cfg \<Rightarrow>
          (case connectDatabase e cfg s of
             (Inr b, s1) \<Rightarrow> (True, s1)
           | (Inl err, s1) \<Rightarrow> (False, s1))
      | None \<Rightarrow> (isConnectionActive s, s))"

text \<open>
  The callback armed by \<^verbatim>\<open>startAutoDisconnectTimer\<close> (lines 102-115), run at clock
  reading \<open>now\<close>. \<^verbatim>\<open>lastActivityTime\<close> is tested for truthiness, so a reading of 0
  counts as absent. The callback calls the same \<^verbatim>\<open>disconnectDatabase\<close> as the
  \<^verbatim>\<open>disconnect_database\<close> tool.
\<close>

definition autoDisconnectCallback :: "env \<Rightarrow> int \<Rightarrow> session \<Rightarrow> (error + unit) \<times> session" where
  "autoDisconnectCallback e now s =
     (case (connectionPool s, lastActivityTime s) of
        (Some p, Some t) \<Rightarrow>
          (if t = 0 then (Inr (), s)
           else if now - t \<ge> 300000 then
             (case disconnectDatabase e s of
                (Inl err, s1) \<Rightarrow> (Inl err, s1)
              | (Inr b, s1) \<Rightarrow> (Inr (), s1))
           else (Inr (), startAutoDisconnectTimer now s))
      | _ \<Rightarrow> (Inr (), s))"

section \<open>Query execution (lines 224-272)\<close>

text \<open>Lines 237-243: a parameter is bound only when name, type and value are all there.\<close>

definition bound_inputs :: "sql_param list \<Rightarrow> sql_param list" where
  "bound_inputs params =
     filter (\<lambda>p. param_name p \<noteq> [] \<and> truthy (param_type p) \<and> param_value p \<noteq> JUndefined) params"

text \<open>Lines 248-255, after \<^verbatim>\<open>request.query\<close> resolved.\<close>

definition query_succeeded :: "int \<Rightarrow> int \<Rightarrow> session \<Rightarrow> session" where
  "query_succeeded qt now s =
     updateActivityTime now
       (s\<lparr> connectionStats := (connectionStats s)\<lparr>
            totalQueries := totalQueries (connectionStats s) + 1,
            successfulQueries := successfulQueries (connectionStats s) + 1,
            lastQueryTime := Some now,
            totalQueryTime := totalQueryTime (connectionStats s) + qt,
            averageQueryTime :=
              of_int (totalQueryTime (connectionStats s) + qt)
                / of_nat (totalQueries (connectionStats s) + 1) \<rparr> \<rparr>)"

text \<open>Lines 265-267, the \<^verbatim>\<open>catch\<close> block before the re-throw.\<close>

definition query_failed :: "session \<Rightarrow> session" where
  "query_failed s = s\<lparr> connectionStats := (connectionStats s)\<lparr>
       totalQueries := totalQueries (connectionStats s) + 1,
       failedQueries := failedQueries (connectionStats s) + 1 \<rparr> \<rparr>"

text \<open>The object returned at lines 257-263.\<close>

definition query_answer :: "int \<Rightarrow> driver_result \<Rightarrow> query_result" where
  "query_answer qt r = \<lparr> success = True,
     res_rowsAffected = rowsAffected r,
     res_recordset = (case recordset r of None \<Rightarrow> [] | Some rs \<Rightarrow> rs),
     queryTime = qt,
     rowCount = (case recordset r of None \<Rightarrow> 0 | Some rs \<Rightarrow> length rs) \<rparr>"

text \<open>
  The \<^verbatim>\<open>try\<close>/\<^verbatim>\<open>catch\<close> of \<^verbatim>\<open>executeQuery\<close> (lines 230-271), entered once the
  reconnect gate has passed. \<^verbatim>\<open>connectionPool.request()\<close> on \<^verbatim>\<open>null\<close> is a
  \<^verbatim>\<open>TypeError\<close> inside the \<^verbatim>\<open>try\<close>.
\<close>

definition run_statement ::
  "env \<Rightarrow> string \<Rightarrow> sql_param list \<Rightarrow> session \<Rightarrow> (error + query_result) \<times> session" where
  "run_statement e sqlText params s =
     (case connectionPool s of
        None \<Rightarrow> (Inl (TypeError ''request''), query_failed s)
      | Some p \<Rightarrow>
          (case run_query e sqlText (bound_inputs params) of
             Inr r \<Rightarrow>
               (Inr (query_answer (t_end e - t_start e) r),
                query_succeeded (t_end e - t_start e) (t_end e) s)
           | Inl msg \<Rightarrow> (Inl (DriverError msg), query_failed s)))"

definition executeQuery ::
  "env \<Rightarrow> string \<Rightarrow> sql_param list \<Rightarrow> session \<Rightarrow> (error + query_result) \<times> session" where
  "executeQuery e sqlText params s =
     (case reconnectIfNeeded e s of
        (False, s1) \<Rightarrow> (Inl NotConnectedError, s1)
      | (True, s1) \<Rightarrow> run_statement e sqlText params s1)"

text \<open>
  The heartbeat callback (lines 73-85): a probe on an active session; success touches
  the activity time, failure is swallowed.
\<close>

definition heartbeatCallback :: "env \<Rightarrow> session \<Rightarrow> session" where
  "heartbeatCallback e s =
     (if isConnectionActive s then
        (case run_query e ''SELECT 1 as heartbeat'' [] of
           Inr r \<Rightarrow> updateActivityTime (t_end e) s
         | Inl msg \<Rightarrow> s)
      else s)"

section \<open>Tool handlers (lines 275-657)\<close>

text \<open>The decimal text a template literal gives a non-negative integer.\<close>

fun string_of_nat :: "nat \<Rightarrow> string" where
  "string_of_nat n =
     (if n < 10 then [''0123456789'' ! n]
      else string_of_nat (n div 10) @ [''0123456789'' ! (n mod 10)])"

declare string_of_nat.simps [simp del]

record sql_item =
  item_id :: "string option"
  item_sql :: string
  item_params :: "sql_param list"

record result_item =
  r_index :: nat
  r_id :: string
  r_sql :: string
  r_success :: bool
  r_result :: "query_result option"
  r_error :: "error option"

record batch_summary =
  results :: "result_item list"
  totalCount :: nat
  successCount :: nat
  errorCount :: nat
  totalTime :: int

record status_report =
  st_connected :: bool
  st_identity :: "(string \<times> rat option \<times> string \<times> string) option"
  st_sinceActivity :: "(int \<times> int) option"
  st_remaining :: "(int \<times> int) option"
  st_stats :: connection_stats

text \<open>
  What a handler answers. The text shown to the caller is not modelled; the constructor
  says which of the handler's \<^verbatim>\<open>return\<close> statements produced it and carries the
  values the text is built from.
\<close>

datatype response =
    ConnectOk
  | ConnectFailed error
  | ExecuteOk query_result
  | ExecuteFailed error
  | DisconnectOk connection_stats
  | NoActiveConnection
  | DisconnectFailed error
  | BatchDone batch_summary
  | BatchFailed error
  | StatusReport status_report
  | StatusFailed error

definition connect_database :: "env \<Rightarrow> config \<Rightarrow> session \<Rightarrow> response \<times> session" where
  "connect_database e params s =
     (case connectDatabase e params s of
        (Inr b, s1) \<Rightarrow> (ConnectOk, s1)
      | (Inl err, s1) \<Rightarrow> (ConnectFailed err, s1))"

text \<open>
  The \<^verbatim>\<open>inputSchema\<close> of \<^verbatim>\<open>connect_database\<close> (lines 279-290) declares every
  field after \<^verbatim>\<open>password\<close> as \<^verbatim>\<open>.optional().default(d)\<close>: a field the caller
  leaves out reaches the handler with the value \<open>d\<close>.
\<close>

definition inputSchema_defaults :: "config \<Rightarrow> config" where
  "inputSchema_defaults params = params\<lparr>
     port := Some (case port params of None \<Rightarrow> 1433 | Some v \<Rightarrow> v),
     encrypt := Some (case encrypt params of None \<Rightarrow> True | Some v \<Rightarrow> v),
     trustServerCertificate :=
       Some (case trustServerCertificate params of None \<Rightarrow> False | Some v \<Rightarrow> v),
     requestTimeout := Some (case requestTimeout params of None \<Rightarrow> 30000 | Some v \<Rightarrow> v),
     connectionTimeout :=
       Some (case connectionTimeout params of None \<Rightarrow> 30000 | Some v \<Rightarrow> v),
     maxPoolSize := Some (case maxPoolSize params of None \<Rightarrow> 10 | Some v \<Rightarrow> v),
     minPoolSize := Some (case minPoolSize params of None \<Rightarrow> 0 | Some v \<Rightarrow> v),
     idleTimeout := Some (case idleTimeout params of None \<Rightarrow> 600000 | Some v \<Rightarrow> v) \<rparr>"

definition execute_sql ::
  "env \<Rightarrow> string \<Rightarrow> sql_param list \<Rightarrow> session \<Rightarrow> response \<times> session" where
  "execute_sql e sqlText params s =
     (case executeQuery e sqlText params s of
        (Inr r, s1) \<Rightarrow> (ExecuteOk r, s1)
      | (Inl err, s1) \<Rightarrow> (ExecuteFailed err, s1))"

definition disconnect_database :: "env \<Rightarrow> session \<Rightarrow> response \<times> session" where
  "disconnect_database e s =
     (case disconnectDatabase e s of
        (Inr True, s1) \<Rightarrow> (DisconnectOk (connectionStats s1), s1)
      | (Inr False, s1) \<Rightarrow> (NoActiveConnection, s1)
      | (Inl err, s1) \<Rightarrow> (DisconnectFailed err, s1))"

text \<open>
  The \<^verbatim>\<open>id\<close> of a result item. In the parallel branch (lines 458, 467) \<^verbatim>\<open>index\<close>
  is the second argument of the \<^verbatim>\<open>map\<close> callback. In the serial branch (lines 487,
  496) the loop variable is \<^verbatim>\<open>i\<close> and no \<^verbatim>\<open>index\<close> is in scope, so evaluating
  the default for an item whose \<^verbatim>\<open>id\<close> is missing or empty throws.
\<close>

definition parallel_item_id :: "nat \<Rightarrow> sql_item \<Rightarrow> string" where
  "parallel_item_id index sqlItem =
     (case item_id sqlItem of
        None \<Rightarrow> ''SQL_'' @ string_of_nat (index + 1)
      | Some i \<Rightarrow> if i = [] then ''SQL_'' @ string_of_nat (index + 1) else i)"

definition serial_item_id :: "sql_item \<Rightarrow> error + string" where
  "serial_item_id sqlItem =
     (case item_id sqlItem of
        None \<Rightarrow> Inl (ReferenceError ''index is not defined'')
      | Some i \<Rightarrow> if i = [] then Inl (ReferenceError ''index is not defined'') else Inr i)"

definition result_of :: "nat \<Rightarrow> string \<Rightarrow> sql_item \<Rightarrow> error + query_result \<Rightarrow> result_item" where
  "result_of n ident sqlItem outcome =
     (case outcome of
        Inr r \<Rightarrow> \<lparr> r_index = n, r_id = ident, r_sql = item_sql sqlItem,
                   r_success = True, r_result = Some r, r_error = None \<rparr>
      | Inl err \<Rightarrow> \<lparr> r_index = n, r_id = ident, r_sql = item_sql sqlItem,
                     r_success = False, r_result = None, r_error = Some err \<rparr>)"

text \<open>
  The serial loop (lines 480-507), from position \<open>i\<close> on, each item paired with what
  the world does during its query. A \<^verbatim>\<open>ReferenceError\<close> raised while the result
  object is built in the \<^verbatim>\<open>try\<close> is caught by the item's \<^verbatim>\<open>catch\<close>, which raises
  it again while building its own object; that one leaves the loop.
\<close>

fun serial_loop ::
  "bool \<Rightarrow> nat \<Rightarrow> (env \<times> sql_item) list \<Rightarrow> result_item list \<Rightarrow> session
     \<Rightarrow> (error + result_item list) \<times> session" where
  "serial_loop stopOnError i [] acc s = (Inr acc, s)"
| "serial_loop stopOnError i ((e, sqlItem) # rest) acc s =
     (case executeQuery e (item_sql sqlItem) (item_params sqlItem) s of
        (Inr r, s1) \<Rightarrow>
          (case serial_item_id sqlItem of
             Inl err \<Rightarrow> (Inl err, s1)
           | Inr ident \<Rightarrow>
               serial_loop stopOnError (i + 1) rest
                 (acc @ [result_of (i + 1) ident sqlItem (Inr r)]) s1)
      | (Inl qerr, s1) \<Rightarrow>
          (case serial_item_id sqlItem of
             Inl err \<Rightarrow> (Inl err, s1)
           | Inr ident \<Rightarrow>
               (if stopOnError
                then (Inr (acc @ [result_of (i + 1) ident sqlItem (Inl qerr)]), s1)
                else serial_loop stopOnError (i + 1) rest
                       (acc @ [result_of (i + 1) ident sqlItem (Inl qerr)]) s1)))"

text \<open>
  The parallel branch (lines 453-477). \<^verbatim>\<open>Promise.all\<close> keeps the input order of the
  results; the effects of the queries on the session fall in the order in which the
  queries settle, which is the order of their \<open>t_end\<close> readings.
\<close>

definition parallel_results :: "(env \<times> sql_item) list \<Rightarrow> session \<Rightarrow> result_item list" where
  "parallel_results sqlList s =
     map (\<lambda>(index, (e, sqlItem)).
            result_of (index + 1) (parallel_item_id index sqlItem) sqlItem
              (fst (executeQuery e (item_sql sqlItem) (item_params sqlItem) s)))
         (enumerate 0 sqlList)"

definition parallel_effects :: "(env \<times> sql_item) list \<Rightarrow> session \<Rightarrow> session" where
  "parallel_effects sqlList s =
     foldl (\<lambda>s1 (e, sqlItem). snd (executeQuery e (item_sql sqlItem) (item_params sqlItem) s1))
       s (sort_key (\<lambda>(e, sqlItem). t_end e) sqlList)"

text \<open>
  \<^verbatim>\<open>batch_execute_sql\<close> (lines 440-587): \<open>e\<close> is the world during the handler's own
  reconnect gate, \<open>startTime\<close> and \<open>endTime\<close> are the clock readings of lines 449
  and 510.
\<close>

definition batch_execute_sql ::
  "env \<Rightarrow> int \<Rightarrow> int \<Rightarrow> (env \<times> sql_item) list \<Rightarrow> bool \<Rightarrow> bool \<Rightarrow> session
     \<Rightarrow> response \<times> session" where
  "batch_execute_sql e startTime endTime sqlList stopOnError parallel s =
     (case reconnectIfNeeded e s of
        (False, s1) \<Rightarrow> (BatchFailed NotConnectedError, s1)
      | (True, s1) \<Rightarrow>
          (case (if parallel
                 then (Inr (parallel_results sqlList s1), parallel_effects sqlList s1)
                 else serial_loop stopOnError 0 sqlList [] s1) of
             (Inl err, s2) \<Rightarrow> (BatchFailed err, s2)
           | (Inr rs, s2) \<Rightarrow>
               (BatchDone \<lparr> results = rs, totalCount = length sqlList,
                            successCount = length (filter r_success rs),
                            errorCount = length (filter (\<lambda>r. \<not> r_success r) rs),
                            totalTime = endTime - startTime \<rparr>, s2)))"

text \<open>The remainder operator \<^verbatim>\<open>%\<close> on integers: the sign follows the dividend.\<close>

definition js_rem :: "int \<Rightarrow> int \<Rightarrow> int" where
  "js_rem a b = sgn a * (\<bar>a\<bar> mod \<bar>b\<bar>)"

text \<open>
  \<^verbatim>\<open>get_connection_status\<close> (lines 594-657). It reads the session and changes
  nothing. With a connected pool and no configuration, reading
  \<^verbatim>\<open>connectionConfig.server\<close> throws.
\<close>

definition get_connection_status :: "int \<Rightarrow> session \<Rightarrow> response \<times> session" where
  "get_connection_status now s =
     (let isConnected = (case connectionPool s of None \<Rightarrow> False | Some p \<Rightarrow> connected p);
          timeSinceLastActivity =
            (case lastActivityTime s of None \<Rightarrow> None
             | Some t \<Rightarrow> if t = 0 then None else Some (now - t))
      in (if isConnected then
            (case connectionConfig s of
               None \<Rightarrow> StatusFailed (TypeError ''server'')
             | Some cfg \<Rightarrow>
                 StatusReport \<lparr>
                   st_connected = True,
                   st_identity = Some (server cfg, port cfg, database cfg, user cfg),
                   st_sinceActivity =
                     map_option (\<lambda>d. (d div 60000, js_rem d 60000 div 1000))
                       timeSinceLastActivity,
                   st_remaining =
                     map_option (\<lambda>d. (max 0 (300 - d div 1000) div 60,
                                       js_rem (max 0 (300 - d div 1000)) 60))
                       timeSinceLastActivity,
                   st_stats = connectionStats s \<rparr>)
          else StatusReport \<lparr> st_connected = False, st_identity = None,
                 st_sinceActivity = None, st_remaining = None,
                 st_stats = connectionStats s \<rparr>, s))"

section \<open>Operations on the session\<close>

text \<open>
  Everything that touches the session: the five tools and the two timer callbacks.
  \<open>perform\<close> gives the session an operation leaves behind, whether it answered or
  threw.
\<close>

datatype operation =
    OpConnect env config
  | OpExecute env string "sql_param list"
  | OpDisconnect env
  | OpBatch env int int "(env \<times> sql_item) list" bool bool
  | OpStatus int
  | OpIdleCheck env int
  | OpHeartbeat env

fun perform :: "operation \<Rightarrow> session \<Rightarrow> session" where
  "perform (OpConnect e cfg) s = snd (connect_database e cfg s)"
| "perform (OpExecute e sqlText params) s = snd (execute_sql e sqlText params s)"
| "perform (OpDisconnect e) s = snd (disconnect_database e s)"
| "perform (OpBatch e t0 t1 sqlList stopOnError parallel) s =
     snd (batch_execute_sql e t0 t1 sqlList stopOnError parallel s)"
| "perform (OpStatus now) s = snd (get_connection_status now s)"
| "perform (OpIdleCheck e now) s = snd (autoDisconnectCallback e now s)"
| "perform (OpHeartbeat e) s = heartbeatCallback e s"

definition run :: "operation list \<Rightarrow> session \<Rightarrow> session" where
  "run ops s = foldl (\<lambda>s1 op. perform op s1) s ops"

definition stats_consistent :: "connection_stats \<Rightarrow> bool" where
  "stats_consistent st =
     (successfulQueries st + failedQueries st = totalQueries st
      \<and> totalConnections st = successfulConnections st + failedConnections st)"

definition counters_le :: "connection_stats \<Rightarrow> connection_stats \<Rightarrow> bool" where
  "counters_le st st' =
     (totalConnections st \<le> totalConnections st'
      \<and> successfulConnections st \<le> successfulConnections st'
      \<and> failedConnections st \<le> failedConnections st'
      \<and> totalQueries st \<le> totalQueries st'
      \<and> successfulQueries st \<le> successfulQueries st'
      \<and> failedQueries st \<le> failedQueries st')"

text \<open>One step of the statistics: consistency is kept and no counter goes down.\<close>

definition stats_step :: "connection_stats \<Rightarrow> connection_stats \<Rightarrow> bool" where
  "stats_step st st' = ((stats_consistent st \<longrightarrow> stats_consistent st') \<and> counters_le st st')"

text \<open>The \<^verbatim>\<open>id\<close>s of the result items of a batch answer, when the batch completed.\<close>

definition response_ids :: "response \<Rightarrow> string list option" where
  "response_ids r = (case r of BatchDone b \<Rightarrow> Some (map r_id (results b)) | _ \<Rightarrow> None)"

section \<open>Concurrent callers of the reconnect gate\<close>

text \<open>
  The engine runs one callback at a time: an \<^verbatim>\<open>async\<close> function runs without
  interruption from one \<^verbatim>\<open>await\<close> to the next, and calls that overlap in time
  interleave segment by segment. A call of \<^verbatim>\<open>reconnectIfNeeded\<close> (each
  \<^verbatim>\<open>executeQuery\<close> makes one at line 226) is suspended at one of these points:
  \<^item> \<open>Start\<close>: not yet running;
  \<^item> \<open>AwaitClose cfg a\<close>: in \<^verbatim>\<open>disconnectDatabase\<close>, called from
    \<^verbatim>\<open>connectDatabase(cfg)\<close>, awaiting \<^verbatim>\<open>close()\<close> of the pool at address \<open>a\<close>
    (line 181);
  \<^item> \<open>AfterDisconnect cfg r\<close>: \<^verbatim>\<open>disconnectDatabase\<close> has returned or thrown
    (\<open>r\<close>), \<^verbatim>\<open>connectDatabase\<close> resumes at line 130;
  \<^item> \<open>AwaitOpen cfg a\<close>: awaiting \<^verbatim>\<open>connect()\<close> of the pool it created at
    address \<open>a\<close> (line 157);
  \<^item> \<open>Done b\<close>: returned \<open>b\<close>.

  Pool objects have identity: a call that awaits \<^verbatim>\<open>connect()\<close> holds the object it
  created, while \<^verbatim>\<open>connectionPool\<close> may by then refer to a newer one. The code reads
  pool objects only through \<^verbatim>\<open>connectionPool\<close>, so the store is kept as the object
  that variable refers to (inside \<open>vars\<close>), its address \<open>poolAddr\<close> and the number
  \<open>created\<close> of pool objects constructed so far; a flag the driver changes on an
  object the variable no longer refers to changes nothing the code can see. The driver
  sets \<^verbatim>\<open>connecting\<close> while an open is in flight.
\<close>

datatype pc =
    Start
  | AwaitClose config nat
  | AfterDisconnect config "error option"
  | AwaitOpen config nat
  | Done bool

record conc =
  vars :: session
  poolAddr :: nat
  created :: nat

definition set_flags :: "nat \<Rightarrow> (connection_pool \<Rightarrow> connection_pool) \<Rightarrow> conc \<Rightarrow> conc" where
  "set_flags a f c =
     (case connectionPool (vars c) of
        None \<Rightarrow> c
      | Some p \<Rightarrow>
          if poolAddr c = a then c\<lparr> vars := (vars c)\<lparr> connectionPool := Some (f p) \<rparr> \<rparr> else c)"

definition open_pool :: "config \<Rightarrow> conc \<Rightarrow> pc \<times> conc" where
  "open_pool cfg c =
     (AwaitOpen cfg (created c),
      c\<lparr> vars := (vars c)\<lparr> connectionPool :=
                Some ((new_ConnectionPool (sqlConfig cfg))\<lparr> connecting := True \<rparr>) \<rparr>,
         poolAddr := created c,
         created := created c + 1 \<rparr>)"

fun task_step :: "env \<Rightarrow> pc \<Rightarrow> conc \<Rightarrow> pc \<times> conc" where
  "task_step e Start c =
     (case (if isConnectionActive (vars c) then None else connectionConfig (vars c)) of
        None \<Rightarrow> (Done (isConnectionActive (vars c)), c)
      | Some cfg \<Rightarrow>
          (case connectionPool (vars c) of
             Some p \<Rightarrow> (AwaitClose cfg (poolAddr c), c)
           | None \<Rightarrow> open_pool cfg c))"
| "task_step e (AwaitClose cfg a) c =
     (case close_error e of
        Some msg \<Rightarrow> (AfterDisconnect cfg (Some (DriverError msg)), c)
      | None \<Rightarrow>
          (AfterDisconnect cfg None,
           c\<lparr> vars := stopHeartbeat ((vars c)\<lparr> connectionPool := None,
                    connectionConfig := None, lastActivityTime := None,
                    autoDisconnectTimer := None \<rparr>) \<rparr>))"
| "task_step e (AfterDisconnect cfg (Some err)) c =
     (Done False, c\<lparr> vars := connect_failed (vars c) \<rparr>)"
| "task_step e (AfterDisconnect cfg None) c = open_pool cfg c"
| "task_step e (AwaitOpen cfg a) c =
     (case open_error e of
        Some msg \<Rightarrow>
          (Done False,
           (set_flags a (\<lambda>p. p\<lparr> connecting := False \<rparr>) c)
             \<lparr> vars := connect_failed (vars (set_flags a (\<lambda>p. p\<lparr> connecting := False \<rparr>) c)) \<rparr>)
      | None \<Rightarrow>
          (Done True,
           (set_flags a (\<lambda>p. p\<lparr> connected := True, connecting := False \<rparr>) c)
             \<lparr> vars := connect_succeeded (t_connected e) cfg
                  (vars (set_flags a (\<lambda>p. p\<lparr> connected := True, connecting := False \<rparr>) c)) \<rparr>))"
| "task_step e (Done b) c = (Done b, c)"

definition sched_step :: "nat \<Rightarrow> conc \<times> (env \<times> pc) list \<Rightarrow> conc \<times> (env \<times> pc) list" where
  "sched_step i ct =
     (case ct of (c, ts) \<Rightarrow>
        if i < length ts then
          (case ts ! i of (e, pc) \<Rightarrow>
             (case task_step e pc c of (pc', c') \<Rightarrow> (c', ts[i := (e, pc')])))
        else (c, ts))"

definition run_schedule :: "nat list \<Rightarrow> conc \<times> (env \<times> pc) list \<Rightarrow> conc \<times> (env \<times> pc) list" where
  "run_schedule sched ct = foldl (\<lambda>ct1 i. sched_step i ct1) ct sched"

fun finished :: "pc \<Rightarrow> bool" where
  "finished (Done b) = True"
| "finished _ = False"

definition arrivals :: "env list \<Rightarrow> (env \<times> pc) list" where
  "arrivals envs = map (\<lambda>e. (e, Start)) envs"

fun in_connect :: "pc \<Rightarrow> nat" where
  "in_connect (AwaitClose cfg a) = 1"
| "in_connect (AfterDisconnect cfg r) = 1"
| "in_connect (AwaitOpen cfg a) = 1"
| "in_connect _ = 0"

fun to_create :: "env \<times> pc \<Rightarrow> nat" where
  "to_create (e, AwaitClose cfg a) = (if close_error e = None then 1 else 0)"
| "to_create (e, AfterDisconnect cfg None) = 1"
| "to_create (e, pc) = 0"

text \<open>
  Measures on the calls in flight: a call counts in \<open>pending\<close> while it is inside
  \<^verbatim>\<open>connectDatabase\<close>, and in \<open>creations\<close> while it is still to construct its pool
  object; \<open>started\<close> says that no call is at \<open>Start\<close>.
\<close>

definition pending :: "(env \<times> pc) list \<Rightarrow> nat" where
  "pending ts = sum_list (map (\<lambda>t. in_connect (snd t)) ts)"

definition creations :: "(env \<times> pc) list \<Rightarrow> nat" where
  "creations ts = sum_list (map to_create ts)"

definition started :: "(env \<times> pc) list \<Rightarrow> bool" where
  "started ts = (\<forall>t \<in> set ts. snd t \<noteq> Start)"

section \<open>Sample inputs\<close>

definition sample_config :: config where
  "sample_config = \<lparr> server = ''localhost'', database = ''testdb'', user = ''sa'',
     password = ''secret'', port = Some 1433, encrypt = Some True,
     trustServerCertificate = Some False, requestTimeout = Some 30000,
     connectionTimeout = Some 30000, maxPoolSize = Some 10, minPoolSize = Some 0,
     idleTimeout = Some 600000 \<rparr>"

definition one_row :: driver_result where
  "one_row = \<lparr> rowsAffected = [1], recordset = Some [[(''n'', JNum 1)]] \<rparr>"

text \<open>A world in which the driver does everything it is asked.\<close>

definition ok_env :: env where
  "ok_env = \<lparr> close_error = None, open_error = None, t_connected = 1000,
     t_start = 2000, run_query = (\<lambda>sqlText inputs. Inr one_row), t_end = 2010 \<rparr>"

definition bad_query_env :: env where
  "bad_query_env = ok_env\<lparr> run_query := (\<lambda>sqlText inputs. Inl ''Invalid object name'') \<rparr>"

definition bad_open_env :: env where
  "bad_open_env = ok_env\<lparr> open_error := Some ''Login failed'' \<rparr>"

text \<open>The session after one successful \<^verbatim>\<open>connect_database\<close> at clock reading 1000.\<close>

definition connected_session :: session where
  "connected_session = snd (connectDatabase ok_env sample_config initial_session)"

definition item_without_id :: sql_item where
  "item_without_id = \<lparr> item_id = None, item_sql = ''SELECT 1 AS n'', item_params = [] \<rparr>"

definition item_named :: "string \<Rightarrow> sql_item" where
  "item_named ident = \<lparr> item_id = Some ident, item_sql = ''SELECT 1 AS n'', item_params = [] \<rparr>"

text \<open>
  A session's life up to an idle disconnect: a connect at clock reading 1000, the
  watchdog's checks every 60 seconds, the heartbeat probes at 121000 and 241000
  rejected by the driver (a probe that succeeds would renew the activity time), and
  the check at 301000, 300 seconds after the last activity.
\<close>

definition idle_trace :: "operation list" where
  "idle_trace =
     [OpConnect ok_env sample_config,
      OpIdleCheck ok_env 61000,
      OpIdleCheck ok_env 121000, OpHeartbeat bad_query_env,
      OpIdleCheck ok_env 181000,
      OpIdleCheck ok_env 241000, OpHeartbeat bad_query_env,
      OpIdleCheck ok_env 301000]"

text \<open>
  A connected session whose pool the driver no longer reports as connected, and the
  store around it: one pool object so far, at address 0.
\<close>

definition stale_session :: session where
  "stale_session = connected_session\<lparr> connectionPool :=
      Some \<lparr> pool_config = sqlConfig sample_config, connected = False, connecting = False \<rparr> \<rparr>"

definition stale_conc :: conc where
  "stale_conc = \<lparr> vars = stale_session, poolAddr = 0, created = 1 \<rparr>"

section \<open>Facts about the connection manager\<close>

lemma connected_session_eq:
  "connected_session =
     \<lparr> connectionPool = Some \<lparr> pool_config = sqlConfig sample_config,
                               connected = True, connecting = False \<rparr>,
       lastActivityTime = Some 1000, connectionConfig = Some sample_config,
       autoDisconnectTimer = Some 1000, heartbeatTimer = Some 1000,
       connectionStats = initial_stats\<lparr> totalConnections := 1,
         successfulConnections := 1, lastConnectionTime := Some 1000 \<rparr> \<rparr>"
  by (simp add: connected_session_def connectDatabase_def Let_def initial_session_def
      ok_env_def new_ConnectionPool_def connect_succeeded_def startHeartbeat_def
      updateActivityTime_def startAutoDisconnectTimer_def initial_stats_def)

lemma connectionPool_connect_succeeded [simp]:
  "connectionPool (connect_succeeded now cfg s) = connectionPool s"
  by (simp add: connect_succeeded_def startHeartbeat_def updateActivityTime_def
      startAutoDisconnectTimer_def)

lemma connectDatabase_Inr_active:
  "connectDatabase e cfg s = (Inr b, s1) \<Longrightarrow> isConnectionActive s1"
  by (auto simp add: connectDatabase_def Let_def isConnectionActive_def new_ConnectionPool_def
      split: option.splits prod.splits sum.splits)

lemma gate_true_active: "reconnectIfNeeded e s = (True, s1) \<Longrightarrow> isConnectionActive s1"
  by (auto simp add: reconnectIfNeeded_def dest: connectDatabase_Inr_active
      split: option.splits if_splits prod.splits sum.splits)

lemma gate_active: "isConnectionActive s \<Longrightarrow> reconnectIfNeeded e s = (True, s)"
  by (simp add: reconnectIfNeeded_def)

section \<open>Facts about the statistics\<close>

lemma stats_step_refl [simp]: "stats_step st st"
  by (simp add: stats_step_def counters_le_def)

lemma stats_step_trans: "stats_step a b \<Longrightarrow> stats_step b c \<Longrightarrow> stats_step a c"
  by (auto simp add: stats_step_def counters_le_def)

lemma stats_disconnectDatabase [simp]:
  "connectionStats (snd (disconnectDatabase e s)) = connectionStats s"
  by (simp add: disconnectDatabase_def stopHeartbeat_def split: option.splits)

lemma stats_step_connect_failed:
  "stats_step (connectionStats s) (connectionStats (connect_failed s))"
  by (simp add: stats_step_def stats_consistent_def counters_le_def connect_failed_def)

lemma stats_step_connect_succeeded:
  "stats_step (connectionStats s) (connectionStats (connect_succeeded now cfg s))"
  by (simp add: stats_step_def stats_consistent_def counters_le_def connect_succeeded_def
      startHeartbeat_def updateActivityTime_def startAutoDisconnectTimer_def)

lemma stats_step_connectDatabase:
  "stats_step (connectionStats s) (connectionStats (snd (connectDatabase e cfg s)))"
proof (cases "disconnectDatabase e s")
  case (Pair r s1)
  then have st: "connectionStats s1 = connectionStats s"
    using stats_disconnectDatabase [of e s] by simp
  show ?thesis
  proof (cases "connectionPool s")
    case None
    then show ?thesis
      using stats_step_connect_failed [of "s\<lparr>connectionPool := Some (new_ConnectionPool (sqlConfig cfg))\<rparr>"]
        stats_step_connect_succeeded [of
          "s\<lparr>connectionPool := Some ((new_ConnectionPool (sqlConfig cfg))\<lparr>connected := True\<rparr>)\<rparr>"
          "t_connected e" cfg]
      by (simp add: connectDatabase_def Let_def split: option.splits)
  next
    case (Some p)
    then show ?thesis
      using Pair st stats_step_connect_failed [of s1]
        stats_step_connect_failed [of "s1\<lparr>connectionPool := Some (new_ConnectionPool (sqlConfig cfg))\<rparr>"]
        stats_step_connect_succeeded [of
          "s1\<lparr>connectionPool := Some ((new_ConnectionPool (sqlConfig cfg))\<lparr>connected := True\<rparr>)\<rparr>"
          "t_connected e" cfg]
      by (simp add: connectDatabase_def Let_def split: option.splits sum.splits)
  qed
qed

lemma stats_step_reconnectIfNeeded:
  "stats_step (connectionStats s) (connectionStats (snd (reconnectIfNeeded e s)))"
proof (cases "if isConnectionActive s then None else connectionConfig s")
  case None
  then show ?thesis by (simp add: reconnectIfNeeded_def)
next
  case (Some cfg)
  then show ?thesis
    using stats_step_connectDatabase [of s e cfg]
    by (auto simp add: reconnectIfNeeded_def split: prod.splits sum.splits)
qed

lemma stats_step_run_statement:
  "stats_step (connectionStats s) (connectionStats (snd (run_statement e sqlText params s)))"
  by (simp add: run_statement_def stats_step_def stats_consistent_def counters_le_def
      query_failed_def query_succeeded_def updateActivityTime_def startAutoDisconnectTimer_def
      split: option.splits sum.splits)

lemma stats_step_executeQuery:
  "stats_step (connectionStats s) (connectionStats (snd (executeQuery e sqlText params s)))"
proof (cases "reconnectIfNeeded e s")
  case (Pair ok s1)
  then have a: "stats_step (connectionStats s) (connectionStats s1)"
    using stats_step_reconnectIfNeeded [of s e] by simp
  show ?thesis
  proof (cases ok)
    case True
    then show ?thesis
      using Pair a stats_step_run_statement [of s1 e sqlText params]
      by (auto simp add: executeQuery_def intro: stats_step_trans)
  next
    case False
    then show ?thesis using Pair a by (simp add: executeQuery_def)
  qed
qed

lemma stats_step_serial_loop:
  "stats_step (connectionStats s) (connectionStats (snd (serial_loop stopOnError i sqlList acc s)))"
proof (induction sqlList arbitrary: i acc s)
  case Nil
  then show ?case by simp
next
  case (Cons x rest)
  obtain e sqlItem where x: "x = (e, sqlItem)" by (cases x)
  obtain r s1 where q: "executeQuery e (item_sql sqlItem) (item_params sqlItem) s = (r, s1)"
    by (cases "executeQuery e (item_sql sqlItem) (item_params sqlItem) s")
  then have a: "stats_step (connectionStats s) (connectionStats s1)"
    using stats_step_executeQuery [of s e "item_sql sqlItem" "item_params sqlItem"] by simp
  have b: "\<And>j acc'. stats_step (connectionStats s)
             (connectionStats (snd (serial_loop stopOnError j rest acc' s1)))"
    using a Cons.IH by (blast intro: stats_step_trans)
  show ?case
    using x q a b by (cases stopOnError) (simp_all split: sum.splits)
qed

lemma stats_step_foldl_executeQuery:
  "stats_step (connectionStats s) (connectionStats
     (foldl (\<lambda>s1 (e, sqlItem). snd (executeQuery e (item_sql sqlItem) (item_params sqlItem) s1)) s xs))"
proof (induction xs arbitrary: s)
  case Nil
  then show ?case by simp
next
  case (Cons x xs)
  obtain e sqlItem where x: "x = (e, sqlItem)" by (cases x)
  show ?case
    using x Cons.IH [of "snd (executeQuery e (item_sql sqlItem) (item_params sqlItem) s)"]
      stats_step_executeQuery [of s e "item_sql sqlItem" "item_params sqlItem"]
    by (auto intro: stats_step_trans)
qed

lemma stats_step_batch:
  "stats_step (connectionStats s)
     (connectionStats (snd (batch_execute_sql e t0 t1 sqlList stopOnError parallel s)))"
proof (cases "reconnectIfNeeded e s")
  case (Pair ok s1)
  then have a: "stats_step (connectionStats s) (connectionStats s1)"
    using stats_step_reconnectIfNeeded [of s e] by simp
  have b: "stats_step (connectionStats s1) (connectionStats (parallel_effects sqlList s1))"
    unfolding parallel_effects_def by (rule stats_step_foldl_executeQuery)
  have c: "stats_step (connectionStats s1)
             (connectionStats (snd (serial_loop stopOnError 0 sqlList [] s1)))"
    by (rule stats_step_serial_loop)
  show ?thesis
  proof (cases ok)
    case False
    then show ?thesis using Pair a by (simp add: batch_execute_sql_def)
  next
    case True
    show ?thesis
    proof (cases parallel)
      case True
      then show ?thesis
        using \<open>ok\<close> Pair stats_step_trans [OF a b] by (simp add: batch_execute_sql_def)
    next
      case False
      then show ?thesis
        using \<open>ok\<close> Pair stats_step_trans [OF a c]
        by (auto simp add: batch_execute_sql_def split: prod.splits sum.splits)
    qed
  qed
qed

lemma stats_step_perform: "stats_step (connectionStats s) (connectionStats (perform op s))"
proof (cases op)
  case (OpConnect e cfg)
  then show ?thesis
    using stats_step_connectDatabase [of s e cfg]
    by (auto simp add: connect_database_def split: prod.splits sum.splits)
next
  case (OpExecute e sqlText params)
  then show ?thesis
    using stats_step_executeQuery [of s e sqlText params]
    by (auto simp add: execute_sql_def split: prod.splits sum.splits)
next
  case (OpDisconnect e)
  obtain r s1 where d: "disconnectDatabase e s = (r, s1)"
    by (cases "disconnectDatabase e s")
  then have "connectionStats s1 = connectionStats s"
    using stats_disconnectDatabase [of e s] by simp
  then show ?thesis
    using OpDisconnect d
    by (auto simp add: disconnect_database_def split: sum.splits bool.splits)
next
  case (OpBatch e t0 t1 sqlList stopOnError parallel)
  then show ?thesis by (simp add: stats_step_batch)
next
  case (OpStatus now)
  then show ?thesis by (simp add: get_connection_status_def Let_def)
next
  case (OpIdleCheck e now)
  obtain r s1 where d: "disconnectDatabase e s = (r, s1)"
    by (cases "disconnectDatabase e s")
  then have "connectionStats s1 = connectionStats s"
    using stats_disconnectDatabase [of e s] by simp
  then show ?thesis
    using OpIdleCheck d
    by (auto simp add: autoDisconnectCallback_def startAutoDisconnectTimer_def
        split: option.splits sum.splits)
next
  case (OpHeartbeat e)
  then show ?thesis
    by (simp add: heartbeatCallback_def updateActivityTime_def startAutoDisconnectTimer_def
        split: sum.splits)
qed

lemma stats_consistent_run:
  "stats_consistent (connectionStats s) \<Longrightarrow> stats_consistent (connectionStats (run ops s))"
  unfolding run_def
proof (induction ops arbitrary: s)
  case Nil
  then show ?case by simp
next
  case (Cons op ops)
  have "stats_consistent (connectionStats (perform op s))"
    using Cons.prems stats_step_perform [of s op] by (simp add: stats_step_def)
  then show ?case using Cons.IH by simp
qed

lemma initial_not_active: "\<not> isConnectionActive initial_session"
  by (simp add: isConnectionActive_def initial_session_def)

lemma connected_active: "isConnectionActive connected_session"
  by (simp add: isConnectionActive_def connected_session_eq)

section \<open>Facts about batches\<close>

lemma r_id_result_of [simp]: "r_id (result_of n ident sqlItem outcome) = ident"
  by (simp add: result_of_def split: sum.splits)

lemma r_success_result_of [simp]:
  "r_success (result_of n ident sqlItem outcome) = (case outcome of Inr r \<Rightarrow> True | Inl err \<Rightarrow> False)"
  by (simp add: result_of_def split: sum.splits)

lemma length_parallel_results [simp]: "length (parallel_results sqlList s) = length sqlList"
  by (simp add: parallel_results_def)

lemma parallel_default_id:
  assumes "i < length sqlList" and "item_id (snd (sqlList ! i)) = None"
  shows "r_id (parallel_results sqlList s ! i) = ''SQL_'' @ string_of_nat (i + 1)"
proof -
  obtain e sqlItem where x: "sqlList ! i = (e, sqlItem)" by (cases "sqlList ! i")
  then have "item_id sqlItem = None" using assms(2) by simp
  then show ?thesis
    using assms(1) x by (simp add: parallel_results_def nth_enumerate_eq parallel_item_id_def)
qed

lemma serial_loop_missing_id:
  assumes "item_id sqlItem = None"
  shows "fst (serial_loop stopOnError i ((e, sqlItem) # rest) acc s)
           = Inl (ReferenceError ''index is not defined'')"
  using assms by (simp add: serial_item_id_def split: prod.splits sum.splits)

lemma run_statement_pool [simp]:
  "connectionPool (snd (run_statement e sqlText params s)) = connectionPool s"
  by (simp add: run_statement_def query_failed_def query_succeeded_def updateActivityTime_def
      startAutoDisconnectTimer_def split: option.splits sum.splits)

lemma executeQuery_active:
  assumes "isConnectionActive s"
  shows "executeQuery e sqlText params s = run_statement e sqlText params s"
    and "isConnectionActive (snd (executeQuery e sqlText params s))"
  using assms by (simp_all add: executeQuery_def gate_active isConnectionActive_def)

text \<open>
  In the parallel branch every item's reconnect gate runs at dispatch, on the session
  the handler's own gate left, which is active (\<open>gate_true_active\<close>). The settling
  queries change neither the pool nor its flags, so the outcome reported for an item,
  computed on that session, is the outcome its query has when it settles.
\<close>

lemma executeQuery_outcome_stable:
  assumes "isConnectionActive s" and "connectionPool s' = connectionPool s"
  shows "fst (executeQuery e sqlText params s') = fst (executeQuery e sqlText params s)"
proof -
  have a: "isConnectionActive s'" using assms by (simp add: isConnectionActive_def)
  obtain p where p: "connectionPool s = Some p"
    using assms(1) by (auto simp add: isConnectionActive_def split: option.splits)
  show ?thesis
    using assms a p
    by (simp add: executeQuery_active run_statement_def split: sum.splits)
qed

lemma settle_fold_pool:
  assumes "isConnectionActive s"
  shows "connectionPool
           (foldl (\<lambda>s1 (e, sqlItem). snd (executeQuery e (item_sql sqlItem) (item_params sqlItem) s1))
              s xs) = connectionPool s"
  using assms
proof (induction xs arbitrary: s)
  case Nil
  then show ?case by simp
next
  case (Cons x xs)
  obtain e sqlItem where x: "x = (e, sqlItem)" by (cases x)
  let ?s1 = "snd (executeQuery e (item_sql sqlItem) (item_params sqlItem) s)"
  have p: "connectionPool ?s1 = connectionPool s"
    using Cons.prems by (simp add: executeQuery_active)
  then have "isConnectionActive ?s1"
    using Cons.prems by (simp add: isConnectionActive_def)
  then show ?case using Cons.IH [of ?s1] p x by simp
qed

lemma parallel_outcomes_at_settle:
  assumes "isConnectionActive s"
  shows "fst (executeQuery e sqlText params
           (foldl (\<lambda>s1 (e, sqlItem). snd (executeQuery e (item_sql sqlItem) (item_params sqlItem) s1))
              s xs))
         = fst (executeQuery e sqlText params s)"
  using assms settle_fold_pool [OF assms, of xs]
  by (intro executeQuery_outcome_stable) simp_all

lemma batch_serial_missing_id:
  assumes "reconnectIfNeeded e s = (True, s1)" and "item_id sqlItem = None"
  shows "fst (batch_execute_sql e t0 t1 ((e1, sqlItem) # rest) stopOnError False s)
           = BatchFailed (ReferenceError ''index is not defined'')"
proof -
  obtain r s2 where l: "serial_loop stopOnError 0 ((e1, sqlItem) # rest) [] s1 = (r, s2)"
    by (cases "serial_loop stopOnError 0 ((e1, sqlItem) # rest) [] s1")
  then have "r = Inl (ReferenceError ''index is not defined'')"
    using serial_loop_missing_id [OF assms(2), of stopOnError 0 e1 rest "[]" s1] by simp
  then show ?thesis
    using assms(1) l by (simp add: batch_execute_sql_def)
qed

lemma batch_parallel_done:
  assumes "reconnectIfNeeded e s = (True, s1)"
  shows "response_ids (fst (batch_execute_sql e t0 t1 sqlList stopOnError True s))
           = Some (map r_id (parallel_results sqlList s1))"
  using assms by (simp add: batch_execute_sql_def response_ids_def)

lemma serial_stop_on_error_with_ids:
  assumes act: "isConnectionActive s"
    and id1: "item_id i1 = Some a" "a \<noteq> []" and id2: "item_id i2 = Some b" "b \<noteq> []"
    and q1: "run_query e1 (item_sql i1) (bound_inputs (item_params i1)) = Inr d1"
    and q2: "run_query e2 (item_sql i2) (bound_inputs (item_params i2)) = Inl msg"
  shows "batch_execute_sql e t0 t1 [(e1, i1), (e2, i2), (e3, i3)] True False s =
           (BatchDone \<lparr> results =
               [result_of 1 a i1 (Inr (query_answer (t_end e1 - t_start e1) d1)),
                result_of 2 b i2 (Inl (DriverError msg))],
              totalCount = 3, successCount = 1, errorCount = 1, totalTime = t1 - t0 \<rparr>,
            query_failed (query_succeeded (t_end e1 - t_start e1) (t_end e1) s))"
proof -
  obtain p where p: "connectionPool s = Some p"
    using act by (auto simp add: isConnectionActive_def split: option.splits)
  let ?s1 = "query_succeeded (t_end e1 - t_start e1) (t_end e1) s"
  have x1: "executeQuery e1 (item_sql i1) (item_params i1) s
              = (Inr (query_answer (t_end e1 - t_start e1) d1), ?s1)"
    using act p q1 by (simp add: executeQuery_active run_statement_def)
  have p1: "connectionPool ?s1 = Some p"
    using p by (simp add: query_succeeded_def updateActivityTime_def startAutoDisconnectTimer_def)
  then have act1: "isConnectionActive ?s1"
    using act p by (simp add: isConnectionActive_def)
  have x2: "executeQuery e2 (item_sql i2) (item_params i2) ?s1
              = (Inl (DriverError msg), query_failed ?s1)"
    using act1 p1 q2 by (simp add: executeQuery_active run_statement_def)
  show ?thesis
    using act x1 x2 id1 id2
    by (simp add: batch_execute_sql_def gate_active serial_item_id_def numeral_2_eq_2)
qed

lemma idle_disconnect_is_disconnect:
  assumes "connectionPool s = Some p" and "lastActivityTime s = Some t" and "t \<noteq> 0"
    and "300000 \<le> now - t"
  shows "snd (autoDisconnectCallback e now s) = snd (disconnectDatabase e s)"
  using assms by (simp add: autoDisconnectCallback_def split: prod.splits sum.splits)

lemma disconnect_clears_config:
  "fst (disconnectDatabase e s) = Inr True \<Longrightarrow> connectionConfig (snd (disconnectDatabase e s)) = None"
  by (auto simp add: disconnectDatabase_def stopHeartbeat_def split: option.splits)

lemma connect_sample:
  "perform (OpConnect ok_env sample_config) initial_session = connected_session"
  by (simp add: connect_database_def connected_session_def connectDatabase_def Let_def
      initial_session_def ok_env_def)

lemma idle_check_early:
  assumes "now - 1000 < 300000"
  shows "perform (OpIdleCheck e now) (connected_session\<lparr> autoDisconnectTimer := Some a \<rparr>)
           = connected_session\<lparr> autoDisconnectTimer := Some now \<rparr>"
  using assms
  by (simp add: autoDisconnectCallback_def startAutoDisconnectTimer_def connected_session_eq)

lemma heartbeat_rejected:
  "perform (OpHeartbeat bad_query_env) s = s"
  by (simp add: heartbeatCallback_def bad_query_env_def)

lemma before_idle:
  "run (butlast idle_trace) initial_session
     = connected_session\<lparr> autoDisconnectTimer := Some 241000 \<rparr>"
proof -
  have c: "connected_session = connected_session\<lparr> autoDisconnectTimer := Some 1000 \<rparr>"
    by (simp add: connected_session_eq)
  have "run (butlast idle_trace) initial_session
          = perform (OpHeartbeat bad_query_env) (perform (OpIdleCheck ok_env 241000)
             (perform (OpIdleCheck ok_env 181000) (perform (OpHeartbeat bad_query_env)
               (perform (OpIdleCheck ok_env 121000) (perform (OpIdleCheck ok_env 61000)
                 (perform (OpConnect ok_env sample_config) initial_session))))))"
    by (simp add: idle_trace_def run_def del: perform.simps)
  also have "\<dots> = connected_session\<lparr> autoDisconnectTimer := Some 241000 \<rparr>"
    unfolding connect_sample heartbeat_rejected
    by (subst c) (simp add: idle_check_early del: perform.simps)
  finally show ?thesis .
qed

section \<open>The idle watchdog and the retained configuration\<close>

text \<open>
  Claim C1: when the idle watchdog disconnects (a pool is held and
  \<open>now - lastActivityTime \<ge> 300000\<close>), the retained configuration is not cleared, so
  the next query reconnects with it; only the caller's own disconnect clears it.

  The code does otherwise. The callback calls \<^verbatim>\<open>disconnectDatabase\<close>, the function
  behind the \<^verbatim>\<open>disconnect_database\<close> tool, and that function sets
  \<^verbatim>\<open>connectionConfig = null\<close> (line 183) with no regard to who called. Along
  \<open>idle_trace\<close>: before the last check the session retains its configuration and its
  activity time is 1000; the check at 301000 leaves the session an explicit
  disconnect would leave, with no configuration; and the next \<^verbatim>\<open>execute_sql\<close>
  answers "not connected" and changes nothing, so no reconnect was tried.
\<close>

theorem idle_disconnect_clears_config:
  "connectionConfig (run (butlast idle_trace) initial_session) = Some sample_config
   \<and> lastActivityTime (run (butlast idle_trace) initial_session) = Some 1000
   \<and> run idle_trace initial_session
       = snd (disconnect_database ok_env (run (butlast idle_trace) initial_session))
   \<and> connectionConfig (run idle_trace initial_session) = None
   \<and> execute_sql ok_env ''SELECT 1 AS n'' [] (run idle_trace initial_session)
       = (ExecuteFailed NotConnectedError, run idle_trace initial_session)"
proof -
  have l: "idle_trace = butlast idle_trace @ [OpIdleCheck ok_env 301000]"
    by (simp add: idle_trace_def)
  have r: "run idle_trace initial_session
             = perform (OpIdleCheck ok_env 301000) (run (butlast idle_trace) initial_session)"
    by (subst l) (simp add: run_def del: perform.simps)
  show ?thesis
    unfolding r before_idle
    by (simp add: connected_session_eq autoDisconnectCallback_def disconnect_database_def
        disconnectDatabase_def stopHeartbeat_def ok_env_def execute_sql_def executeQuery_def
        reconnectIfNeeded_def isConnectionActive_def)
qed

section \<open>A failed open\<close>

text \<open>
  Claim C2: the pool handle is non-null only while the session is connected; a failed
  pool open increments the failure counters, re-raises, and leaves the session
  disconnected and holding no pool handle.

  The last part fails: \<^verbatim>\<open>connectionPool\<close> is assigned at line 156, before the open is
  awaited, and the \<^verbatim>\<open>catch\<close> does not reset it. From the initial session, a rejected
  open leaves a session that is not active and yet holds a pool object.
\<close>

theorem connect_failure_keeps_pool:
  "open_error bad_open_env = Some ''Login failed''
   \<and> fst (connectDatabase bad_open_env sample_config initial_session)
       = Inl (DriverError ''Login failed'')
   \<and> \<not> isConnectionActive (snd (connectDatabase bad_open_env sample_config initial_session))
   \<and> connectionPool (snd (connectDatabase bad_open_env sample_config initial_session)) \<noteq> None"
  by (simp add: connectDatabase_def Let_def bad_open_env_def ok_env_def initial_session_def
      connect_failed_def isConnectionActive_def new_ConnectionPool_def)

text \<open>
  Claim C2 as amended: an active session always holds a pool, but a held pool does
  not make the session active. For every configuration whose pool open is rejected
  (any pool held before having been closed without error), \<^verbatim>\<open>connectDatabase\<close>
  re-raises the driver's error, adds one to \<^verbatim>\<open>totalConnections\<close> and to
  \<^verbatim>\<open>failedConnections\<close>, leaves \<^verbatim>\<open>successfulConnections\<close> as it was, and leaves
  a session that is not active. The theorem also records what \<^verbatim>\<open>connectionPool\<close>
  holds afterwards: the unconnected pool object of the failed attempt.
\<close>

theorem connect_failure_state:
  assumes "open_error e = Some msg" and "connectionPool s = None \<or> close_error e = None"
  shows "fst (connectDatabase e cfg s) = Inl (DriverError msg)
         \<and> totalConnections (connectionStats (snd (connectDatabase e cfg s)))
             = totalConnections (connectionStats s) + 1
         \<and> failedConnections (connectionStats (snd (connectDatabase e cfg s)))
             = failedConnections (connectionStats s) + 1
         \<and> successfulConnections (connectionStats (snd (connectDatabase e cfg s)))
             = successfulConnections (connectionStats s)
         \<and> \<not> isConnectionActive (snd (connectDatabase e cfg s))
         \<and> connectionPool (snd (connectDatabase e cfg s))
             = Some (new_ConnectionPool (sqlConfig cfg))
         \<and> (isConnectionActive s \<longrightarrow> connectionPool s \<noteq> None)"
  using assms
  by (auto simp add: connectDatabase_def Let_def disconnectDatabase_def stopHeartbeat_def
      new_ConnectionPool_def connect_failed_def isConnectionActive_def split: option.splits)

theorem connect_failure_state_witness:
  "open_error bad_open_env = Some ''Login failed''
   \<and> (connectionPool connected_session = None \<or> close_error bad_open_env = None)
   \<and> isConnectionActive connected_session
   \<and> fst (connectDatabase bad_open_env sample_config connected_session)
       = Inl (DriverError ''Login failed'')
   \<and> failedConnections (connectionStats
        (snd (connectDatabase bad_open_env sample_config connected_session))) = 1
   \<and> \<not> isConnectionActive (snd (connectDatabase bad_open_env sample_config connected_session))"
proof -
  have a: "open_error bad_open_env = Some ''Login failed''"
    by (simp add: bad_open_env_def)
  have b: "connectionPool connected_session = None \<or> close_error bad_open_env = None"
    by (simp add: bad_open_env_def ok_env_def)
  show ?thesis
    using a b connected_active connect_failure_state [OF a b, of sample_config]
    by (simp add: connected_session_eq initial_stats_def)
qed

section \<open>Default labels of batch items\<close>

text \<open>
  Claim C3: a batch item without an \<^verbatim>\<open>id\<close> is reported under the label
  \<^verbatim>\<open>SQL_\<close> followed by its 1-based position, in serial and in parallel mode, and the
  batch completes normally.

  In parallel mode it does (\<open>parallel_default_id\<close>, \<open>batch_parallel_done\<close>). In
  serial mode the default is computed from \<^verbatim>\<open>index\<close>, which is not bound there (the
  loop variable is \<^verbatim>\<open>i\<close>): building the result object throws, the item's
  \<^verbatim>\<open>catch\<close> throws again, and the handler's outer \<^verbatim>\<open>catch\<close> answers with a
  batch failure (\<open>batch_serial_missing_id\<close>). Below, a batch of one item without
  \<^verbatim>\<open>id\<close> on a connected session, whose query succeeds: failure in serial mode,
  \<^verbatim>\<open>SQL_1\<close> in parallel mode.
\<close>

theorem serial_default_id_throws:
  "fst (batch_execute_sql ok_env 2000 2020 [(ok_env, item_without_id)] False False connected_session)
     = BatchFailed (ReferenceError ''index is not defined'')
   \<and> response_ids (fst (batch_execute_sql ok_env 2000 2020 [(ok_env, item_without_id)] False True
        connected_session)) = Some [''SQL_1'']"
proof -
  have g: "reconnectIfNeeded ok_env connected_session = (True, connected_session)"
    by (simp add: gate_active connected_active)
  have i: "item_id item_without_id = None" by (simp add: item_without_id_def)
  have "parallel_item_id 0 item_without_id = ''SQL_1''"
    by (simp add: parallel_item_id_def item_without_id_def string_of_nat.simps)
  then have "map r_id (parallel_results [(ok_env, item_without_id)] connected_session) = [''SQL_1'']"
    by (simp add: parallel_results_def)
  then show ?thesis
    using batch_serial_missing_id [OF g i] batch_parallel_done [OF g] by simp
qed

section \<open>Stop on error in serial mode\<close>

text \<open>
  Claim C5: a serial batch with \<^verbatim>\<open>stopOnError\<close> runs the items in input order and
  stops after the first failing one: of three items whose second fails, two results
  are reported, the third item is not attempted, and the batch answers normally.

  With \<^verbatim>\<open>id\<close>s on the first two items the code does that
  (\<open>serial_stop_on_error_with_ids\<close>). Without them the defect of claim C3 turns the
  batch into a failure as soon as the first result object is built. Below, both
  batches on a connected session, the second query rejected by the driver.
\<close>

theorem serial_stop_on_error_throws:
  "fst (batch_execute_sql ok_env 2000 2030
          [(ok_env, item_without_id), (bad_query_env, item_without_id), (ok_env, item_without_id)]
          True False connected_session)
     = BatchFailed (ReferenceError ''index is not defined'')
   \<and> response_ids (fst (batch_execute_sql ok_env 2000 2030
          [(ok_env, item_named ''a''), (bad_query_env, item_named ''b''), (ok_env, item_named ''c'')]
          True False connected_session)) = Some [''a'', ''b'']"
proof -
  have g: "reconnectIfNeeded ok_env connected_session = (True, connected_session)"
    by (simp add: gate_active connected_active)
  have i: "item_id item_without_id = None" by (simp add: item_without_id_def)
  have "fst (batch_execute_sql ok_env 2000 2030
          [(ok_env, item_without_id), (bad_query_env, item_without_id), (ok_env, item_without_id)]
          True False connected_session)
     = BatchFailed (ReferenceError ''index is not defined'')"
    by (rule batch_serial_missing_id [OF g i])
  moreover have "response_ids (fst (batch_execute_sql ok_env 2000 2030
          [(ok_env, item_named ''a''), (bad_query_env, item_named ''b''), (ok_env, item_named ''c'')]
          True False connected_session)) = Some [''a'', ''b'']"
    using serial_stop_on_error_with_ids [OF connected_active, of "item_named ''a''" "''a''"
        "item_named ''b''" "''b''" ok_env one_row bad_query_env "''Invalid object name''"
        ok_env 2000 2030 ok_env "item_named ''c''"]
    by (simp add: item_named_def ok_env_def bad_query_env_def response_ids_def)
  ultimately show ?thesis by simp
qed

section \<open>A query with no session and no configuration\<close>

text \<open>
  Claim C6: a query on a session that is not active and retains no configuration
  fails with the not-connected error without any connection attempt. The session,
  and so the pool variable and every counter, is left exactly as it was.
\<close>

theorem executeQuery_not_connected:
  assumes "\<not> isConnectionActive s" and "connectionConfig s = None"
  shows "executeQuery e sqlText params s = (Inl NotConnectedError, s)
         \<and> execute_sql e sqlText params s = (ExecuteFailed NotConnectedError, s)"
  using assms by (simp add: execute_sql_def executeQuery_def reconnectIfNeeded_def)

theorem executeQuery_not_connected_witness:
  "\<not> isConnectionActive initial_session \<and> connectionConfig initial_session = None
   \<and> executeQuery ok_env ''SELECT 1 AS n'' [] initial_session = (Inl NotConnectedError, initial_session)
   \<and> totalConnections (connectionStats (snd (executeQuery ok_env ''SELECT 1 AS n'' [] initial_session))) = 0"
proof -
  have a: "\<not> isConnectionActive initial_session" by (rule initial_not_active)
  have b: "connectionConfig initial_session = None" by (simp add: initial_session_def)
  show ?thesis
    using a b executeQuery_not_connected [OF a b, of ok_env "''SELECT 1 AS n''" "[]"]
    by (simp add: initial_session_def initial_stats_def)
qed

section \<open>Disconnecting twice\<close>

text \<open>
  Claim C7: disconnect answers with a "was active" boolean and does not fail when
  there is no session, so two calls in a row are safe: the first, on a session that
  holds a pool which the driver closes, returns \<^verbatim>\<open>true\<close>; the second returns
  \<^verbatim>\<open>false\<close> and does not throw, whatever the driver would do, because it never
  reaches the driver. The same holds for any session \<open>s0\<close> that holds no pool.
\<close>

theorem disconnect_twice:
  assumes "connectionPool s \<noteq> None" and "close_error e1 = None"
    and "connectionPool s0 = None"
  shows "fst (disconnectDatabase e1 s) = Inr True
         \<and> disconnectDatabase e2 (snd (disconnectDatabase e1 s))
             = (Inr False, snd (disconnectDatabase e1 s))
         \<and> disconnect_database e2 (snd (disconnectDatabase e1 s))
             = (NoActiveConnection, snd (disconnectDatabase e1 s))
         \<and> disconnectDatabase e2 s0 = (Inr False, s0)"
  using assms
  by (auto simp add: disconnect_database_def disconnectDatabase_def stopHeartbeat_def
      split: option.splits)

theorem disconnect_twice_witness:
  "connectionPool connected_session \<noteq> None \<and> close_error ok_env = None
   \<and> connectionPool initial_session = None
   \<and> fst (disconnectDatabase ok_env connected_session) = Inr True
   \<and> fst (disconnectDatabase bad_open_env (snd (disconnectDatabase ok_env connected_session)))
       = Inr False
   \<and> fst (disconnectDatabase ok_env initial_session) = Inr False"
proof -
  have a: "connectionPool connected_session \<noteq> None" by (simp add: connected_session_eq)
  have b: "close_error ok_env = None" by (simp add: ok_env_def)
  have c: "connectionPool initial_session = None" by (simp add: initial_session_def)
  show ?thesis
    using a b c disconnect_twice [OF a b c, of bad_open_env]
      disconnect_twice [OF a b c, of ok_env] by simp
qed

section \<open>A failing query and the activity time\<close>

text \<open>
  Claim C8: a failing query does not update \<^verbatim>\<open>lastActivityTime\<close>. Once the
  reconnect gate has passed and left the session \<open>s1\<close>, a statement the driver
  rejects leaves \<open>s1\<close> with \<^verbatim>\<open>totalQueries\<close> and \<^verbatim>\<open>failedQueries\<close> incremented
  and nothing else changed, the activity time and the watchdog timer included, and the
  error is re-raised. On a session that was active at the call, \<open>s1\<close> is the session
  the call started from.
\<close>

theorem failed_query_keeps_activity:
  assumes "reconnectIfNeeded e s = (True, s1)"
    and "run_query e sqlText (bound_inputs params) = Inl msg"
  shows "executeQuery e sqlText params s =
           (Inl (DriverError msg),
            s1\<lparr> connectionStats := (connectionStats s1)\<lparr>
                  totalQueries := totalQueries (connectionStats s1) + 1,
                  failedQueries := failedQueries (connectionStats s1) + 1 \<rparr> \<rparr>)
         \<and> lastActivityTime (snd (executeQuery e sqlText params s)) = lastActivityTime s1
         \<and> autoDisconnectTimer (snd (executeQuery e sqlText params s)) = autoDisconnectTimer s1
         \<and> (isConnectionActive s \<longrightarrow> s1 = s)"
proof -
  from assms(1) have "isConnectionActive s1" by (rule gate_true_active)
  then obtain p where p: "connectionPool s1 = Some p"
    by (auto simp add: isConnectionActive_def split: option.splits)
  have run: "executeQuery e sqlText params s = run_statement e sqlText params s1"
    using assms(1) by (simp add: executeQuery_def)
  have "run_statement e sqlText params s1 = (Inl (DriverError msg), query_failed s1)"
    using p assms(2) by (simp add: run_statement_def)
  moreover have "isConnectionActive s \<longrightarrow> s1 = s"
    using assms(1) by (auto simp add: gate_active)
  ultimately show ?thesis using run by (simp add: query_failed_def)
qed

theorem failed_query_keeps_activity_witness:
  "reconnectIfNeeded bad_query_env connected_session = (True, connected_session)
   \<and> run_query bad_query_env ''SELECT * FROM missing'' (bound_inputs []) = Inl ''Invalid object name''
   \<and> lastActivityTime (snd (executeQuery bad_query_env ''SELECT * FROM missing'' [] connected_session)) = Some 1000
   \<and> failedQueries (connectionStats (snd (executeQuery bad_query_env ''SELECT * FROM missing'' [] connected_session))) = 1"
proof -
  have g: "reconnectIfNeeded bad_query_env connected_session = (True, connected_session)"
    by (simp add: reconnectIfNeeded_def isConnectionActive_def connected_session_eq)
  have q: "run_query bad_query_env ''SELECT * FROM missing'' (bound_inputs []) = Inl ''Invalid object name''"
    by (simp add: bad_query_env_def ok_env_def)
  show ?thesis
    using failed_query_keeps_activity [OF g q] g q
    by (simp add: connected_session_eq initial_stats_def)
qed

section \<open>The statistics counters\<close>

text \<open>
  Claim C9: after every operation the counters satisfy
  \<^verbatim>\<open>successfulQueries + failedQueries = totalQueries\<close> and
  \<^verbatim>\<open>totalConnections = successfulConnections + failedConnections\<close>, and no
  operation lowers a counter. The first part is stated for every session reached from
  the initial one by any sequence of operations (tools and timer callbacks), the
  second for one operation from any session.
\<close>

theorem stats_invariant:
  "stats_consistent (connectionStats (run ops initial_session))
   \<and> counters_le (connectionStats s) (connectionStats (perform op s))"
proof
  have "stats_consistent (connectionStats initial_session)"
    by (simp add: initial_session_def initial_stats_def stats_consistent_def)
  then show "stats_consistent (connectionStats (run ops initial_session))"
    by (rule stats_consistent_run)
  show "counters_le (connectionStats s) (connectionStats (perform op s))"
    using stats_step_perform [of s op] by (simp add: stats_step_def)
qed

section \<open>The pool minimum\<close>

text \<open>
  Claim C10: a \<^verbatim>\<open>minPoolSize\<close> of 0, the default the tool schema declares, is
  coerced when the pool options are built: \<^verbatim>\<open>config.minPoolSize || 1\<close> gives 1, and
  the pool that \<^verbatim>\<open>connectDatabase\<close> creates (whether its open then succeeds or not)
  has minimum 1. So has the pool of a caller who leaves \<^verbatim>\<open>minPoolSize\<close> out and
  gets the schema's 0.
\<close>

theorem minPoolSize_zero_gives_one:
  assumes "minPoolSize cfg = Some 0" and "minPoolSize params = None"
  shows "pool_min (sql_pool (sqlConfig cfg)) = 1
         \<and> (connectionPool s = None \<or> close_error e = None \<longrightarrow>
              map_option (\<lambda>p. pool_min (sql_pool (pool_config p)))
                (connectionPool (snd (connectDatabase e cfg s))) = Some 1)
         \<and> minPoolSize (inputSchema_defaults params) = Some 0
         \<and> pool_min (sql_pool (sqlConfig (inputSchema_defaults params))) = 1"
proof -
  have m: "pool_min (sql_pool (sqlConfig cfg)) = 1"
    using assms(1) by (simp add: sqlConfig_def num_or_def)
  have "connectionPool s = None \<or> close_error e = None \<Longrightarrow>
        map_option (\<lambda>p. pool_min (sql_pool (pool_config p)))
          (connectionPool (snd (connectDatabase e cfg s))) = Some 1"
    using m
    by (auto simp add: connectDatabase_def Let_def disconnectDatabase_def stopHeartbeat_def
        new_ConnectionPool_def connect_failed_def split: option.splits)
  moreover have "minPoolSize (inputSchema_defaults params) = Some 0"
    using assms(2) by (simp add: inputSchema_defaults_def)
  moreover have "pool_min (sql_pool (sqlConfig (inputSchema_defaults params))) = 1"
    using assms(2) by (simp add: inputSchema_defaults_def sqlConfig_def num_or_def)
  ultimately show ?thesis using m by blast
qed

theorem minPoolSize_zero_gives_one_witness:
  "minPoolSize sample_config = Some 0
   \<and> minPoolSize (sample_config\<lparr> minPoolSize := None \<rparr>) = None
   \<and> pool_min (sql_pool (sqlConfig sample_config)) = 1
   \<and> map_option (\<lambda>p. pool_min (sql_pool (pool_config p)))
        (connectionPool (snd (connectDatabase ok_env sample_config initial_session))) = Some 1
   \<and> pool_min (sql_pool (sqlConfig
        (inputSchema_defaults (sample_config\<lparr> minPoolSize := None \<rparr>)))) = 1"
proof -
  have a: "minPoolSize sample_config = Some 0" by (simp add: sample_config_def)
  have b: "connectionPool initial_session = None" by (simp add: initial_session_def)
  have c: "minPoolSize (sample_config\<lparr> minPoolSize := None \<rparr>) = None" by simp
  show ?thesis
    using a b c minPoolSize_zero_gives_one [OF a c, of initial_session ok_env] by simp
qed

section \<open>Facts about concurrent callers\<close>

text \<open>With a single caller the interleaved model is the sequential function.\<close>

lemma single_caller_is_sequential:
  "vars (fst (run_schedule [0, 0, 0, 0] (c, arrivals [e]))) = snd (reconnectIfNeeded e (vars c))
   \<and> snd (run_schedule [0, 0, 0, 0] (c, arrivals [e]))
       = [(e, Done (fst (reconnectIfNeeded e (vars c))))]"
proof (cases "if isConnectionActive (vars c) then None else connectionConfig (vars c)")
  case None
  then show ?thesis
    by (simp add: run_schedule_def sched_step_def arrivals_def reconnectIfNeeded_def)
next
  case (Some cfg)
  show ?thesis
  proof (cases "connectionPool (vars c)")
    case None
    then show ?thesis
      using Some
      by (cases "open_error e")
         (simp_all add: run_schedule_def sched_step_def arrivals_def reconnectIfNeeded_def
           open_pool_def set_flags_def connectDatabase_def Let_def new_ConnectionPool_def)
  next
    case (Some p)
    show ?thesis
    proof (cases "close_error e")
      case (Some msg)
      then show ?thesis
        using \<open>(if isConnectionActive (vars c) then None else connectionConfig (vars c)) = Some cfg\<close>
          \<open>connectionPool (vars c) = Some p\<close>
        by (simp add: run_schedule_def sched_step_def arrivals_def reconnectIfNeeded_def
            connectDatabase_def disconnectDatabase_def)
    next
      case None
      then show ?thesis
        using \<open>(if isConnectionActive (vars c) then None else connectionConfig (vars c)) = Some cfg\<close>
          \<open>connectionPool (vars c) = Some p\<close>
        by (cases "open_error e")
           (simp_all add: run_schedule_def sched_step_def arrivals_def reconnectIfNeeded_def
             open_pool_def set_flags_def connectDatabase_def disconnectDatabase_def Let_def
             new_ConnectionPool_def stopHeartbeat_def split: option.splits)
    qed
  qed
qed

lemma task_step_attempts:
  assumes "pc \<noteq> Start" and "task_step e pc c = (pc', c')"
  shows "totalConnections (connectionStats (vars c')) + in_connect pc'
           = totalConnections (connectionStats (vars c)) + in_connect pc"
proof (cases pc)
  case Start
  then show ?thesis using assms by simp
next
  case (AwaitClose cfg a)
  then show ?thesis
    using assms(2) by (auto simp add: stopHeartbeat_def split: option.splits)
next
  case (AfterDisconnect cfg r)
  then show ?thesis
    using assms(2) by (cases r) (auto simp add: open_pool_def connect_failed_def)
next
  case (AwaitOpen cfg a)
  then show ?thesis
    using assms(2)
    by (auto simp add: set_flags_def connect_failed_def connect_succeeded_def
        startHeartbeat_def updateActivityTime_def startAutoDisconnectTimer_def
        split: option.splits if_splits)
next
  case (Done b)
  then show ?thesis using assms(2) by auto
qed

lemma task_step_created:
  assumes "pc \<noteq> Start" and "task_step e pc c = (pc', c')"
  shows "created c' + to_create (e, pc') = created c + to_create (e, pc)"
proof (cases pc)
  case Start
  then show ?thesis using assms by simp
next
  case (AwaitClose cfg a)
  then show ?thesis
    using assms(2) by (auto split: option.splits)
next
  case (AfterDisconnect cfg r)
  then show ?thesis
    using assms(2) by (cases r) (auto simp add: open_pool_def)
next
  case (AwaitOpen cfg a)
  then show ?thesis
    using assms(2) by (auto simp add: set_flags_def split: option.splits if_splits)
next
  case (Done b)
  then show ?thesis using assms(2) by auto
qed

lemma task_step_started:
  assumes "pc \<noteq> Start" and "task_step e pc c = (pc', c')"
  shows "pc' \<noteq> Start"
proof (cases pc)
  case Start
  then show ?thesis using assms by simp
next
  case (AwaitClose cfg a)
  then show ?thesis using assms(2) by (auto split: option.splits)
next
  case (AfterDisconnect cfg r)
  then show ?thesis using assms(2) by (cases r) (auto simp add: open_pool_def)
next
  case (AwaitOpen cfg a)
  then show ?thesis using assms(2) by (auto split: option.splits)
next
  case (Done b)
  then show ?thesis using assms(2) by auto
qed

lemma pending_update:
  assumes "i < length ts" and "ts ! i = (e, pc)"
  shows "pending (ts[i := (e, pc')]) + in_connect pc = pending ts + in_connect pc'"
proof -
  have m: "map (\<lambda>t. in_connect (snd t)) (ts[i := (e, pc')])
             = (map (\<lambda>t. in_connect (snd t)) ts)[i := in_connect pc']"
    by (simp add: map_update)
  have le: "in_connect pc \<le> sum_list (map (\<lambda>t. in_connect (snd t)) ts)"
    using assms elem_le_sum_list [of i "map (\<lambda>t. in_connect (snd t)) ts"] by simp
  show ?thesis
    using assms le by (simp add: pending_def m sum_list_update)
qed

lemma creations_update:
  assumes "i < length ts" and "ts ! i = (e, pc)"
  shows "creations (ts[i := (e, pc')]) + to_create (e, pc) = creations ts + to_create (e, pc')"
proof -
  have m: "map to_create (ts[i := (e, pc')]) = (map to_create ts)[i := to_create (e, pc')]"
    by (simp add: map_update)
  have le: "to_create (e, pc) \<le> sum_list (map to_create ts)"
    using assms elem_le_sum_list [of i "map to_create ts"] by simp
  show ?thesis
    using assms le by (simp add: creations_def m sum_list_update)
qed

lemma sched_step_invariant:
  assumes "started ts" and "sched_step i (c, ts) = (c', ts')"
  shows "started ts'
         \<and> totalConnections (connectionStats (vars c')) + pending ts'
             = totalConnections (connectionStats (vars c)) + pending ts
         \<and> created c' + creations ts' = created c + creations ts"
proof (cases "i < length ts")
  case False
  then have "c' = c" "ts' = ts" using assms(2) by (simp_all add: sched_step_def)
  then show ?thesis using assms(1) by simp
next
  case True
  obtain e pc where t: "ts ! i = (e, pc)" by (cases "ts ! i")
  obtain pc1 c1 where st: "task_step e pc c = (pc1, c1)" by (cases "task_step e pc c")
  have r: "c' = c1" "ts' = ts[i := (e, pc1)]"
    using assms(2) True t st by (simp_all add: sched_step_def)
  have ns: "pc \<noteq> Start"
    using assms(1) True t by (force simp add: started_def set_conv_nth)
  have ns1: "pc1 \<noteq> Start" using ns st by (rule task_step_started)
  have a: "started ts'"
    using assms(1) ns1 r(2) unfolding started_def
    by (auto dest!: subsetD [OF set_update_subset_insert])
  have b: "totalConnections (connectionStats (vars c')) + pending ts'
             = totalConnections (connectionStats (vars c)) + pending ts"
    using task_step_attempts [OF ns st] pending_update [OF True t, of pc1] r by simp
  have d: "created c' + creations ts' = created c + creations ts"
    using task_step_created [OF ns st] creations_update [OF True t, of pc1] r by simp
  show ?thesis using a b d by simp
qed

lemma run_schedule_invariant:
  assumes "started ts" and "run_schedule sched (c, ts) = (c', ts')"
  shows "started ts'
         \<and> totalConnections (connectionStats (vars c')) + pending ts'
           = totalConnections (connectionStats (vars c)) + pending ts
         \<and> created c' + creations ts' = created c + creations ts"
  using assms
proof (induction sched arbitrary: c ts)
  case Nil
  then show ?case by (simp add: run_schedule_def)
next
  case (Cons i sched)
  obtain c1 ts1 where s1: "sched_step i (c, ts) = (c1, ts1)" by (cases "sched_step i (c, ts)")
  have r: "run_schedule sched (c1, ts1) = (c', ts')"
    using Cons.prems(2) s1 by (simp add: run_schedule_def)
  have i1: "started ts1" using sched_step_invariant [OF Cons.prems(1) s1] by simp
  show ?case
    using Cons.IH [OF i1 r] sched_step_invariant [OF Cons.prems(1) s1] by simp
qed

lemma run_schedule_append:
  "run_schedule (xs @ ys) ct = run_schedule ys (run_schedule xs ct)"
  by (simp add: run_schedule_def)

lemma start_step:
  assumes "\<not> isConnectionActive (vars c)" and "connectionConfig (vars c) = Some cfg"
    and "task_step e Start c = (pc', c')"
  shows "\<not> isConnectionActive (vars c') \<and> connectionConfig (vars c') = Some cfg
         \<and> totalConnections (connectionStats (vars c')) = totalConnections (connectionStats (vars c))
         \<and> in_connect pc' = 1 \<and> pc' \<noteq> Start
         \<and> (close_error e = None \<longrightarrow> created c' + to_create (e, pc') = created c + 1)"
proof (cases "connectionPool (vars c)")
  case None
  then show ?thesis
    using assms
    by (auto simp add: open_pool_def isConnectionActive_def new_ConnectionPool_def)
next
  case (Some p)
  then show ?thesis using assms by auto
qed

lemma arrivals_run:
  assumes "\<not> isConnectionActive (vars c)" and "connectionConfig (vars c) = Some cfg"
  shows "k \<le> length envs \<Longrightarrow>
         \<exists>ck A. run_schedule [0..<k] (c, arrivals envs)
                   = (ck, A @ map (\<lambda>e. (e, Start)) (drop k envs))
           \<and> length A = k
           \<and> \<not> isConnectionActive (vars ck) \<and> connectionConfig (vars ck) = Some cfg
           \<and> totalConnections (connectionStats (vars ck))
               = totalConnections (connectionStats (vars c))
           \<and> started A \<and> pending A = k
           \<and> ((\<forall>e \<in> set envs. close_error e = None)
                \<longrightarrow> created ck + creations A = created c + k)"
proof (induction k)
  case 0
  then show ?case
    using assms by (simp add: run_schedule_def arrivals_def started_def pending_def creations_def)
next
  case (Suc k)
  then have k: "k < length envs" by simp
  then obtain ck A where
    prev: "run_schedule [0..<k] (c, arrivals envs)
             = (ck, A @ map (\<lambda>e. (e, Start)) (drop k envs))"
    and la: "length A = k"
    and gate: "\<not> isConnectionActive (vars ck)" "connectionConfig (vars ck) = Some cfg"
    and tot: "totalConnections (connectionStats (vars ck))
               = totalConnections (connectionStats (vars c))"
    and sa: "started A" and pa: "pending A = k"
    and cr: "(\<forall>e \<in> set envs. close_error e = None)
               \<longrightarrow> created ck + creations A = created c + k"
    using Suc.IH by auto
  let ?e = "envs ! k"
  let ?rest = "map (\<lambda>e. (e, Start)) (drop (Suc k) envs)"
  have d: "drop k envs = ?e # drop (Suc k) envs"
    using k by (simp add: Cons_nth_drop_Suc)
  obtain pc' c' where st: "task_step ?e Start ck = (pc', c')"
    by (cases "task_step ?e Start ck")
  note s = start_step [OF gate st]
  have step: "sched_step k (ck, A @ (?e, Start) # ?rest) = (c', (A @ [(?e, pc')]) @ ?rest)"
    using la st by (simp add: sched_step_def nth_append list_update_append)
  have run: "run_schedule [0..<Suc k] (c, arrivals envs) = (c', (A @ [(?e, pc')]) @ ?rest)"
    using prev d step by (simp add: run_schedule_append) (simp add: run_schedule_def)
  have e_in: "?e \<in> set envs" using k by simp
  have "started (A @ [(?e, pc')])" using sa s by (simp add: started_def)
  moreover have "pending (A @ [(?e, pc')]) = Suc k" using pa s by (simp add: pending_def)
  moreover have "(\<forall>e \<in> set envs. close_error e = None)
                   \<longrightarrow> created c' + creations (A @ [(?e, pc')]) = created c + Suc k"
    using cr s e_in by (auto simp add: creations_def)
  ultimately show ?case
    using run la s tot by (intro exI [of _ c'] exI [of _ "A @ [(?e, pc')]"]) simp
qed

lemma finished_pending: "\<forall>t \<in> set ts. finished (snd t) \<Longrightarrow> pending ts = 0 \<and> creations ts = 0"
proof (induction ts)
  case Nil
  then show ?case by (simp add: pending_def creations_def)
next
  case (Cons t ts)
  obtain e pc where t: "t = (e, pc)" by (cases t)
  have "finished pc" using Cons.prems t by simp
  then have "in_connect pc = 0 \<and> to_create (e, pc) = 0" by (cases pc) simp_all
  then show ?case using Cons t by (simp add: pending_def creations_def)
qed

lemma stale_gate:
  "\<not> isConnectionActive (vars stale_conc)"
  "connectionConfig (vars stale_conc) = Some sample_config"
  by (simp_all add: stale_conc_def stale_session_def connected_session_eq isConnectionActive_def)

lemmas conc_eval = run_schedule_def sched_step_def arrivals_def open_pool_def set_flags_def
  stale_conc_def stale_session_def connected_session_eq ok_env_def isConnectionActive_def
  stopHeartbeat_def connect_succeeded_def connect_failed_def startHeartbeat_def
  updateActivityTime_def startAutoDisconnectTimer_def new_ConnectionPool_def initial_stats_def

section \<open>Concurrent reconnects\<close>

text \<open>
  Claim C4: when N queries arrive concurrently on a session that is not active but
  retains a configuration, exactly one new pool is opened and the connection-attempt
  counter increases by one, not N; the other callers reuse that outcome.

  The code has nothing that serialises reconnects: no lock and no shared promise of
  the attempt in flight. Two callers on a session whose pool is no longer connected,
  taking turns segment by segment, with every driver call succeeding: both return
  \<^verbatim>\<open>true\<close>, \<^verbatim>\<open>totalConnections\<close> goes from 1 to 3 and the number of pool objects
  from 1 to 3.
\<close>

theorem two_callers_open_two_pools:
  "totalConnections (connectionStats (vars stale_conc)) = 1
   \<and> created stale_conc = 1
   \<and> map snd (snd (run_schedule [0, 1, 0, 1, 0, 1, 0, 1] (stale_conc, arrivals [ok_env, ok_env])))
       = [Done True, Done True]
   \<and> totalConnections (connectionStats (vars (fst
        (run_schedule [0, 1, 0, 1, 0, 1, 0, 1] (stale_conc, arrivals [ok_env, ok_env]))))) = 3
   \<and> created (fst (run_schedule [0, 1, 0, 1, 0, 1, 0, 1] (stale_conc, arrivals [ok_env, ok_env])))
       = 3"
  by (simp add: conc_eval)

text \<open>
  Claim C4 as amended: N queries that all arrive (run their first segment) while the
  session is not active and retains a configuration each run \<^verbatim>\<open>connectDatabase\<close>
  for themselves. Once all N calls have returned, in whatever order their driver
  calls complete, \<^verbatim>\<open>totalConnections\<close> has increased by N; and if every
  \<^verbatim>\<open>close()\<close> resolved, N pool objects have been constructed.
\<close>

theorem concurrent_reconnects:
  assumes "\<not> isConnectionActive (vars c)" and "connectionConfig (vars c) = Some cfg"
    and "run_schedule ([0..<length envs] @ sched) (c, arrivals envs) = (c', ts')"
    and "\<forall>t \<in> set ts'. finished (snd t)"
  shows "totalConnections (connectionStats (vars c'))
           = totalConnections (connectionStats (vars c)) + length envs
         \<and> ((\<forall>e \<in> set envs. close_error e = None) \<longrightarrow> created c' = created c + length envs)"
proof -
  obtain cn A where
    a: "run_schedule [0..<length envs] (c, arrivals envs) = (cn, A)"
    and tot: "totalConnections (connectionStats (vars cn))
               = totalConnections (connectionStats (vars c))"
    and s: "started A" and p: "pending A = length envs"
    and cr: "(\<forall>e \<in> set envs. close_error e = None)
               \<longrightarrow> created cn + creations A = created c + length envs"
    using arrivals_run [OF assms(1,2), of "length envs" envs] by auto
  have r: "run_schedule sched (cn, A) = (c', ts')"
    using assms(3) a by (simp add: run_schedule_append)
  have z: "pending ts' = 0 \<and> creations ts' = 0" using assms(4) by (rule finished_pending)
  show ?thesis
    using run_schedule_invariant [OF s r] tot p cr z by auto
qed

theorem concurrent_reconnects_witness:
  "\<not> isConnectionActive (vars stale_conc)
   \<and> connectionConfig (vars stale_conc) = Some sample_config
   \<and> map (\<lambda>t. finished (snd t))
         (snd (run_schedule ([0..<2] @ [1, 1, 0, 1, 0, 0])
                 (stale_conc, arrivals [ok_env, bad_open_env]))) = [True, True]
   \<and> map close_error [ok_env, bad_open_env] = [None, None]
   \<and> totalConnections (connectionStats (vars (fst
        (run_schedule ([0..<2] @ [1, 1, 0, 1, 0, 0])
           (stale_conc, arrivals [ok_env, bad_open_env])))))
       = totalConnections (connectionStats (vars stale_conc)) + 2
   \<and> created (fst (run_schedule ([0..<2] @ [1, 1, 0, 1, 0, 0])
           (stale_conc, arrivals [ok_env, bad_open_env])))
       = created stale_conc + 2"
proof -
  let ?r = "run_schedule ([0..<2] @ [1, 1, 0, 1, 0, 0])
              (stale_conc, arrivals [ok_env, bad_open_env])"
  have l: "length [ok_env, bad_open_env] = 2" by simp
  have r: "run_schedule ([0..<length [ok_env, bad_open_env]] @ [1, 1, 0, 1, 0, 0])
              (stale_conc, arrivals [ok_env, bad_open_env]) = (fst ?r, snd ?r)"
    unfolding l by simp
  have u: "[0..<2] = [0, 1]" by (simp add: upt_rec)
  have m: "map (\<lambda>t. finished (snd t)) (snd ?r) = [True, True]"
    by (simp add: u conc_eval bad_open_env_def)
  have f: "\<forall>t \<in> set (snd ?r). finished (snd t)"
  proof
    fix t assume "t \<in> set (snd ?r)"
    then have "finished (snd t) \<in> set (map (\<lambda>t. finished (snd t)) (snd ?r))" by simp
    then show "finished (snd t)" unfolding m by simp
  qed
  have n: "map close_error [ok_env, bad_open_env] = [None, None]"
    by (simp add: ok_env_def bad_open_env_def)
  then have c: "\<forall>e \<in> set [ok_env, bad_open_env]. close_error e = None" by simp
  note t = concurrent_reconnects [OF stale_gate r f, unfolded l]
  have a: "totalConnections (connectionStats (vars (fst ?r)))
             = totalConnections (connectionStats (vars stale_conc)) + 2"
    using t by (rule conjunct1)
  have b: "created (fst ?r) = created stale_conc + 2"
    using t c by blast
  show ?thesis
    using stale_gate m n a b by (intro conjI)
qed

end
